theory Spec2Isabelle
  imports Main "HOL-Library.AList"
begin

section \<open>Python strings\<close>

text \<open>
  A Python \<open>str\<close> is modelled as a \<open>string\<close> whose characters are the code points
  below 256. \<open>str.isspace\<close> and \<open>str.lower\<close> are written out for that range.
\<close>

definition py_isspace :: "char \<Rightarrow> bool" where
  "py_isspace c =
     (let n = (of_char c :: nat)
      in (9 \<le> n \<and> n \<le> 13) \<or> (28 \<le> n \<and> n \<le> 32) \<or> n = 133 \<or> n = 160)"

definition py_strip :: "string \<Rightarrow> string" where
  "py_strip s = rev (dropWhile py_isspace (rev (dropWhile py_isspace s)))"

definition py_isupper :: "char \<Rightarrow> bool" where
  "py_isupper c =
     (let n = (of_char c :: nat)
      in (65 \<le> n \<and> n \<le> 90) \<or> (192 \<le> n \<and> n \<le> 222 \<and> n \<noteq> 215))"

text \<open>Lower-casing adds 32 to an upper-case code point, that is, sets bit 5.\<close>

fun py_lower_char :: "char \<Rightarrow> char" where
  "py_lower_char (Char b0 b1 b2 b3 b4 b5 b6 b7) =
     (if py_isupper (Char b0 b1 b2 b3 b4 b5 b6 b7)
      then Char b0 b1 b2 b3 b4 True b6 b7
      else Char b0 b1 b2 b3 b4 b5 b6 b7)"

definition py_lower :: "string \<Rightarrow> string" where
  "py_lower s = map py_lower_char s"

definition py_endswith :: "string \<Rightarrow> string \<Rightarrow> bool" where
  "py_endswith s suffix =
     (length suffix \<le> length s \<and> drop (length s - length suffix) s = suffix)"

text \<open>\<open>s.split(sep)\<close> for a one-character separator: \<open>k\<close> separators give \<open>k + 1\<close> pieces.\<close>

fun py_split :: "char \<Rightarrow> string \<Rightarrow> string list" where
  "py_split sep [] = [[]]"
| "py_split sep (c # cs) =
     (if c = sep then [] # py_split sep cs
      else (case py_split sep cs of
              [] \<Rightarrow> [[c]]
            | x # xs \<Rightarrow> (c # x) # xs))"

fun py_join :: "string \<Rightarrow> string list \<Rightarrow> string" where
  "py_join sep [] = []"
| "py_join sep [x] = x"
| "py_join sep (x # y # ys) = x @ sep @ py_join sep (y # ys)"


section \<open>The functions of \<open>os.path\<close> that work on the path string alone\<close>

text \<open>
  The script runs on macOS only, so \<open>os.path\<close> is \<open>posixpath\<close>: the separator is
  \<open>/\<close>. These are library functions; they are written out after the library's documented
  behaviour.
\<close>

definition is_sep :: "char \<Rightarrow> bool" where
  "is_sep c = (c = CHR ''/'')"

text \<open>
  \<open>os.path.split\<close>: the tail is what follows the last slash; the head is what precedes
  it, with trailing slashes removed unless the head consists of slashes only.
\<close>

definition path_split :: "string \<Rightarrow> string \<times> string" where
  "path_split p =
     (let tail = rev (takeWhile (\<lambda>c. \<not> is_sep c) (rev p));
          head_raw = rev (dropWhile (\<lambda>c. \<not> is_sep c) (rev p));
          head_cut = rev (dropWhile is_sep (rev head_raw))
      in (if head_cut = [] then head_raw else head_cut, tail))"

definition dirname :: "string \<Rightarrow> string" where
  "dirname p = fst (path_split p)"

definition basename :: "string \<Rightarrow> string" where
  "basename p = snd (path_split p)"

text \<open>\<open>os.path.join\<close> of two components.\<close>

definition path_join :: "string \<Rightarrow> string \<Rightarrow> string" where
  "path_join a b =
     (if take 1 b = ''/'' then b
      else if a = [] \<or> last a = CHR ''/'' then a @ b
      else a @ ''/'' @ b)"

text \<open>
  \<open>os.path.splitext\<close>: the extension starts at the last dot of the last path component,
  provided some character other than a dot precedes it in that component; otherwise the
  extension is empty.
\<close>

definition splitext :: "string \<Rightarrow> string \<times> string" where
  "splitext p =
     (let name = basename p;
          ext_rest = rev (takeWhile (\<lambda>c. c \<noteq> CHR ''.'') (rev name));
          stem = rev (drop 1 (dropWhile (\<lambda>c. c \<noteq> CHR ''.'') (rev name)))
      in if CHR ''.'' \<in> set name \<and> dropWhile (\<lambda>c. c = CHR ''.'') stem \<noteq> []
         then (take (length p - Suc (length ext_rest)) p, CHR ''.'' # ext_rest)
         else (p, []))"

text \<open>The path components \<open>os.path.commonpath\<close> compares: empty ones and \<open>.\<close> are dropped.\<close>

definition path_components :: "string \<Rightarrow> string list" where
  "path_components p = filter (\<lambda>c. c \<noteq> [] \<and> c \<noteq> ''.'') (py_split (CHR ''/'') p)"

fun common_prefix :: "string list \<Rightarrow> string list \<Rightarrow> string list" where
  "common_prefix (x # xs) (y # ys) = (if x = y then x # common_prefix xs ys else [])"
| "common_prefix _ _ = []"


section \<open>Errors, events and the world\<close>

text \<open>The exceptions the script or the library calls it makes can raise.\<close>

datatype error =
    ValueError string
  | FileNotFoundError
  | FileExistsError
  | NotADirectoryError
  | IsADirectoryError
  | SameFileError
  | TooManyLinks
  | RecursionError

text \<open>
  The file system is a table from path strings to what \<open>lstat\<close> finds there: a regular
  file with its bytes, a directory, or a symbolic link with its target. Paths are compared
  as strings, so two spellings of one path are two entries. Metadata (times, modes) and
  special files are not modelled.
\<close>

datatype node = File string | Dir | Symlink string

text \<open>What the process does to the outside, in order.\<close>

datatype event = Spawn "string list" | Stderr string | Stdout string

record world =
  fs :: "(string \<times> node) list"
  trace :: "event list"

definition emit :: "event \<Rightarrow> world \<Rightarrow> world" where
  "emit e w = w\<lparr>trace := trace w @ [e]\<rparr>"

type_synonym 'a result = "'a \<times> world"


section \<open>External commands\<close>

record completed_process =
  returncode :: int
  stdout :: string
  stderr :: string

text \<open>
  \<open>subprocess.run\<close> is a parameter: what a command returns may depend on its arguments,
  on the file system and on everything that happened before (the trace), so the same
  question may get different answers at different times. The two commands the script runs
  only read: they leave the file system as it is.
\<close>

type_synonym process_oracle = "world \<Rightarrow> string list \<Rightarrow> completed_process"

definition MDLS_BIN :: string where
  "MDLS_BIN = ''/usr/bin/mdls''"

definition OSASCRIPT_BIN :: string where
  "OSASCRIPT_BIN = ''/usr/bin/osascript''"

definition ALIAS_CONTENT_TYPE :: string where
  "ALIAS_CONTENT_TYPE = ''com.apple.alias-file''"

definition RESOLVE_ALIAS_SCRIPT :: string where
  \<open>RESOLVE_ALIAS_SCRIPT =
     ''on run argv\<newline>'' @
     ''    set theItem to POSIX file (item 1 of argv)\<newline>'' @
     ''    tell application "Finder"\<newline>'' @
     ''        set resolved to (original item of (theItem as alias)) as alias\<newline>'' @
     ''        return POSIX path of resolved\<newline>'' @
     ''    end tell\<newline>'' @
     ''end run\<newline>''\<close>

definition run_cmd :: "process_oracle \<Rightarrow> world \<Rightarrow> string list \<Rightarrow> completed_process result" where
  "run_cmd P w args = (P w args, emit (Spawn args) w)"

definition run_osascript ::
  "process_oracle \<Rightarrow> world \<Rightarrow> string \<Rightarrow> string list \<Rightarrow> string option result" where
  "run_osascript P w script args =
     (let cmd = [OSASCRIPT_BIN, ''-e'', script, ''--''] @ args;
          (result, w1) = run_cmd P w cmd
      in if returncode result \<noteq> 0 then (None, w1)
         else (Some (py_strip (stdout result)), w1))"

definition mdls_cmd :: "string \<Rightarrow> string list" where
  "mdls_cmd path = [MDLS_BIN, ''-name'', ''kMDItemContentType'', ''-raw'', path]"

definition is_alias_file :: "process_oracle \<Rightarrow> world \<Rightarrow> string \<Rightarrow> bool result" where
  "is_alias_file P w path =
     (let (result, w1) = run_cmd P w (mdls_cmd path)
      in if returncode result \<noteq> 0 then (False, w1)
         else (py_strip (stdout result) = ALIAS_CONTENT_TYPE, w1))"

definition resolve_alias :: "process_oracle \<Rightarrow> world \<Rightarrow> string \<Rightarrow> string option result" where
  "resolve_alias P w path = run_osascript P w RESOLVE_ALIAS_SCRIPT [path]"


text \<open>The command line \<open>resolve_alias\<close> runs.\<close>

definition osascript_cmd :: "string \<Rightarrow> string list" where
  "osascript_cmd path = [OSASCRIPT_BIN, ''-e'', RESOLVE_ALIAS_SCRIPT, ''--'', path]"


section \<open>Following a chain of aliases\<close>

text \<open>
  The truth value Python gives an \<open>Optional[str]\<close>: \<open>None\<close> and the empty string are
  both false, so \<open>if not resolved\<close> takes either.
\<close>

fun truthy :: "string option \<Rightarrow> string option" where
  "truthy None = None"
| "truthy (Some s) = (if s = [] then None else Some s)"

text \<open>The body of \<open>for _ in range(max_depth)\<close> with \<open>n\<close> iterations left.\<close>

fun chain_loop :: "process_oracle \<Rightarrow> nat \<Rightarrow> world \<Rightarrow> string \<Rightarrow> string option result" where
  "chain_loop P 0 w current = (Some current, w)"
| "chain_loop P (Suc n) w current =
     (case is_alias_file P w current of
        (alias, w1) \<Rightarrow>
          if \<not> alias then (Some current, w1)
          else (case resolve_alias P w1 current of
                  (resolved, w2) \<Rightarrow>
                    (case truthy resolved of
                       None \<Rightarrow> (None, w2)
                     | Some r \<Rightarrow>
                         if r = current then (Some current, w2)
                         else chain_loop P n w2 r)))"

text \<open>\<open>range(max_depth)\<close> is empty when \<open>max_depth\<close> is zero or negative.\<close>

definition resolve_alias_chain ::
  "process_oracle \<Rightarrow> world \<Rightarrow> string \<Rightarrow> int \<Rightarrow> string option result" where
  "resolve_alias_chain P w path max_depth = chain_loop P (nat max_depth) w path"

definition default_max_depth :: int where
  "default_max_depth = 10"



section \<open>What a run is observed to do, and what an alias chain is\<close>

text \<open>The numbers of \<open>mdls\<close> and \<open>osascript\<close> processes a world has seen.\<close>

fun is_probe :: "event \<Rightarrow> bool" where
  "is_probe (Spawn args) = (take 1 args = [MDLS_BIN])"
| "is_probe _ = False"

fun is_hop :: "event \<Rightarrow> bool" where
  "is_hop (Spawn args) = (take 1 args = [OSASCRIPT_BIN])"
| "is_hop _ = False"

definition probes :: "world \<Rightarrow> nat" where
  "probes w = length (filter is_probe (trace w))"

definition hops :: "world \<Rightarrow> nat" where
  "hops w = length (filter is_hop (trace w))"

text \<open>
  \<open>hop_to P p q\<close>: whenever it is asked, the oracle says that \<open>p\<close> is an alias and
  that it resolves to \<open>q\<close>. An alias chain is a list of paths, each an alias of the next.
\<close>

definition hop_to :: "process_oracle \<Rightarrow> string \<Rightarrow> string \<Rightarrow> bool" where
  "hop_to P p q \<longleftrightarrow> (\<forall>w. fst (is_alias_file P w p) \<and> fst (resolve_alias P w p) = Some q)"

fun alias_chain :: "process_oracle \<Rightarrow> string list \<Rightarrow> bool" where
  "alias_chain P (p # q # ps) = (hop_to P p q \<and> q \<noteq> [] \<and> q \<noteq> p \<and> alias_chain P (q # ps))"
| "alias_chain P _ = True"



section \<open>The file-system calls\<close>

text \<open>
  \<open>stat\<close> follows symbolic links at the path it is given (a relative link target is
  joined to the link's directory) and gives up after \<open>MAXSYMLINKS\<close> links.
\<close>

definition MAXSYMLINKS :: nat where
  "MAXSYMLINKS = 32"

fun follow_links :: "nat \<Rightarrow> (string \<times> node) list \<Rightarrow> string \<Rightarrow> string option" where
  "follow_links 0 tbl p = None"
| "follow_links (Suc n) tbl p =
     (case map_of tbl p of
        Some (Symlink t) \<Rightarrow> follow_links n tbl (path_join (dirname p) t)
      | _ \<Rightarrow> Some p)"

definition stat :: "world \<Rightarrow> string \<Rightarrow> node option" where
  "stat w p =
     (case follow_links MAXSYMLINKS (fs w) p of
        None \<Rightarrow> None
      | Some q \<Rightarrow> map_of (fs w) q)"

definition path_exists :: "world \<Rightarrow> string \<Rightarrow> bool" where
  "path_exists w p = (stat w p \<noteq> None)"

definition isdir :: "world \<Rightarrow> string \<Rightarrow> bool" where
  "isdir w p = (stat w p = Some Dir)"

definition islink :: "world \<Rightarrow> string \<Rightarrow> bool" where
  "islink w p = (case map_of (fs w) p of Some (Symlink t) \<Rightarrow> True | _ \<Rightarrow> False)"

text \<open>
  Creating an entry needs its directory: an empty directory name is the current directory,
  which is there.
\<close>

definition parent_error :: "world \<Rightarrow> string \<Rightarrow> error option" where
  "parent_error w p =
     (if dirname p = [] then None
      else (case stat w (dirname p) of
              None \<Rightarrow> Some FileNotFoundError
            | Some Dir \<Rightarrow> None
            | Some _ \<Rightarrow> Some NotADirectoryError))"

definition write_node :: "world \<Rightarrow> string \<Rightarrow> node \<Rightarrow> world" where
  "write_node w p nd = w\<lparr>fs := AList.update p nd (fs w)\<rparr>"

definition mkdir :: "world \<Rightarrow> string \<Rightarrow> error option result" where
  "mkdir w p =
     (if map_of (fs w) p \<noteq> None then (Some FileExistsError, w)
      else (case parent_error w p of
              Some e \<Rightarrow> (Some e, w)
            | None \<Rightarrow> (None, write_node w p Dir)))"

text \<open>
  \<open>os.makedirs(name)\<close> with \<open>exist_ok=False\<close>: the head of \<open>name\<close> is created first when it
  is missing, then \<open>name\<close> itself.
\<close>

definition makedirs_split :: "string \<Rightarrow> string \<times> string" where
  "makedirs_split name =
     (if snd (path_split name) = [] then path_split (fst (path_split name))
      else path_split name)"

function makedirs :: "world \<Rightarrow> string \<Rightarrow> error option result" where
  "makedirs w name =
     (if fst (makedirs_split name) \<noteq> [] \<and> snd (makedirs_split name) \<noteq> []
         \<and> \<not> path_exists w (fst (makedirs_split name))
      then (case makedirs w (fst (makedirs_split name)) of
              (Some e, w1) \<Rightarrow>
                if e = FileExistsError
                then (if snd (makedirs_split name) = ''.'' then (None, w1) else mkdir w1 name)
                else (Some e, w1)
            | (None, w1) \<Rightarrow>
                if snd (makedirs_split name) = ''.'' then (None, w1) else mkdir w1 name)
      else mkdir w name)"
  by pat_completeness auto

text \<open>The recursion ends because the head is shorter than the name.\<close>

termination
proof (relation "measure (\<lambda>(w, name). length name)")
  show "wf (measure (\<lambda>(w, name). length name))"
    by (rule wf_measure)
next
  fix w :: world and name :: string
  assume called: "fst (makedirs_split name) \<noteq> [] \<and> snd (makedirs_split name) \<noteq> []
    \<and> \<not> path_exists w (fst (makedirs_split name))"
  have parts: "length (fst (path_split p)) + length (snd (path_split p)) \<le> length p" for p
  proof -
    define t where "t = rev (takeWhile (\<lambda>c. \<not> is_sep c) (rev p))"
    define h where "h = rev (dropWhile (\<lambda>c. \<not> is_sep c) (rev p))"
    define c where "c = rev (dropWhile is_sep (rev h))"
    have split: "path_split p = (if c = [] then h else c, t)"
      unfolding path_split_def Let_def t_def h_def c_def ..
    have "takeWhile (\<lambda>c. \<not> is_sep c) (rev p) @ dropWhile (\<lambda>c. \<not> is_sep c) (rev p) = rev p"
      by (rule takeWhile_dropWhile_id)
    then have "length (takeWhile (\<lambda>c. \<not> is_sep c) (rev p)
          @ dropWhile (\<lambda>c. \<not> is_sep c) (rev p)) = length (rev p)"
      by (rule arg_cong)
    then have whole: "length t + length h = length p"
      unfolding t_def h_def by (simp only: length_append length_rev)
    have "length (dropWhile is_sep (rev h)) \<le> length (rev h)"
      by (rule length_dropWhile_le)
    then have cut: "length c \<le> length h"
      unfolding c_def by (simp only: length_rev)
    have "length (if c = [] then h else c) \<le> length h"
      using cut by simp
    then show ?thesis
      unfolding split fst_conv snd_conv using whole by linarith
  qed
  have "length (fst (makedirs_split name)) < length name"
  proof (cases "snd (path_split name) = []")
    case True
    then have eq: "makedirs_split name = path_split (fst (path_split name))"
      unfolding makedirs_split_def by (rule if_P)
    have "snd (path_split (fst (path_split name))) \<noteq> []"
      using called unfolding eq by (rule conjunct1 [OF conjunct2])
    then have "0 < length (snd (path_split (fst (path_split name))))"
      by simp
    then have "length (fst (path_split (fst (path_split name)))) < length (fst (path_split name))"
      using parts [of "fst (path_split name)"] by linarith
    moreover have "length (fst (path_split name)) \<le> length name"
      using parts [of name] by linarith
    ultimately show ?thesis
      unfolding eq by linarith
  next
    case False
    then have eq: "makedirs_split name = path_split name"
      unfolding makedirs_split_def by (rule if_not_P)
    have "0 < length (snd (path_split name))"
      using False by simp
    then show ?thesis
      unfolding eq using parts [of name] by linarith
  qed
  then show "((w, fst (makedirs_split name)), (w, name)) \<in> measure (\<lambda>(w, name). length name)"
    by simp
qed

declare makedirs.simps [simp del]

text \<open>
  \<open>os.scandir\<close>: the names directly under a directory, in the table's order, read once
  when the loop starts.
\<close>

definition entry_name :: "string \<Rightarrow> string \<Rightarrow> string option" where
  "entry_name d p =
     (let pre = path_join d [];
          name = drop (length pre) p
      in if take (length pre) p = pre \<and> name \<noteq> [] \<and> CHR ''/'' \<notin> set name
         then Some name else None)"

definition scandir :: "world \<Rightarrow> string \<Rightarrow> error + string list" where
  "scandir w d =
     (case stat w d of
        None \<Rightarrow> Inl FileNotFoundError
      | Some Dir \<Rightarrow> Inr (List.map_filter (\<lambda>(p, nd). entry_name d p) (fs w))
      | Some _ \<Rightarrow> Inl NotADirectoryError)"

text \<open>
  \<open>shutil.copy2\<close>. A destination that is a directory receives the file under the
  source's base name. Without \<open>follow_symlinks\<close> a source that is a link is recreated as
  a link; otherwise the source is opened for reading and the destination for writing (both
  through links) and the bytes are copied. The metadata \<open>copy2\<close> copies as well is not
  modelled.
\<close>

definition samefile :: "world \<Rightarrow> string \<Rightarrow> string \<Rightarrow> bool" where
  "samefile w a b =
     (path_exists w a \<and> path_exists w b
      \<and> follow_links MAXSYMLINKS (fs w) a = follow_links MAXSYMLINKS (fs w) b)"

definition symlink :: "world \<Rightarrow> string \<Rightarrow> string \<Rightarrow> error option result" where
  "symlink w target p =
     (if map_of (fs w) p \<noteq> None then (Some FileExistsError, w)
      else (case parent_error w p of
              Some e \<Rightarrow> (Some e, w)
            | None \<Rightarrow> (None, write_node w p (Symlink target))))"

definition write_bytes :: "world \<Rightarrow> string \<Rightarrow> string \<Rightarrow> error option result" where
  "write_bytes w p bytes =
     (case follow_links MAXSYMLINKS (fs w) p of
        None \<Rightarrow> (Some TooManyLinks, w)
      | Some q \<Rightarrow>
          if map_of (fs w) q = Some Dir then (Some IsADirectoryError, w)
          else (case parent_error w q of
                  Some e \<Rightarrow> (Some e, w)
                | None \<Rightarrow> (None, write_node w q (File bytes))))"

definition copyfile :: "world \<Rightarrow> string \<Rightarrow> string \<Rightarrow> bool \<Rightarrow> error option result" where
  "copyfile w src dst follow_symlinks =
     (if samefile w src dst then (Some SameFileError, w)
      else if \<not> follow_symlinks \<and> islink w src
      then (case map_of (fs w) src of
              Some (Symlink t) \<Rightarrow> symlink w t dst
            | _ \<Rightarrow> (Some FileNotFoundError, w))
      else (case stat w src of
              None \<Rightarrow> (Some FileNotFoundError, w)
            | Some Dir \<Rightarrow> (Some IsADirectoryError, w)
            | Some (Symlink t) \<Rightarrow> (Some TooManyLinks, w)
            | Some (File bytes) \<Rightarrow> write_bytes w dst bytes))"

definition copy2 :: "world \<Rightarrow> string \<Rightarrow> string \<Rightarrow> bool \<Rightarrow> error option result" where
  "copy2 w src dst follow_symlinks =
     copyfile w src (if isdir w dst then path_join dst (basename src) else dst) follow_symlinks"


section \<open>The copier\<close>

definition ensure_dir :: "world \<Rightarrow> string \<Rightarrow> error option result" where
  "ensure_dir w path =
     (if path_exists w path
      then (if \<not> isdir w path
            then (Some (ValueError (''Destination exists and is not a directory: '' @ path)), w)
            else (None, w))
      else makedirs w path)"

definition copy_file :: "world \<Rightarrow> string \<Rightarrow> string \<Rightarrow> bool \<Rightarrow> error option result" where
  "copy_file w src_path dest_path follow_symlinks =
     (let parent = dirname dest_path
      in (case (if parent \<noteq> [] then ensure_dir w parent else (None, w)) of
            (Some e, w1) \<Rightarrow> (Some e, w1)
          | (None, w1) \<Rightarrow> copy2 w1 src_path dest_path follow_symlinks))"

definition ensure_target_extension :: "world \<Rightarrow> string \<Rightarrow> string \<Rightarrow> string" where
  "ensure_target_extension w dest_path target_path =
     (if isdir w target_path then dest_path
      else (let target_ext = snd (splitext target_path)
            in if target_ext = [] then dest_path
               else if py_endswith (py_lower dest_path) (py_lower target_ext) then dest_path
               else dest_path @ target_ext))"

text \<open>
  The three copy functions call each other. The first argument after the oracle is the
  call depth that is left: Python raises \<open>RecursionError\<close> when its recursion limit is
  reached. \<open>copy_entries\<close> is the \<open>for\<close> loop of \<open>copy_directory\<close>. An exception ends
  the run, and what was written before it stays written.
\<close>

function (sequential) copy_directory ::
    "process_oracle \<Rightarrow> nat \<Rightarrow> world \<Rightarrow> string \<Rightarrow> string \<Rightarrow> bool \<Rightarrow> error option result"
  and copy_entries ::
    "process_oracle \<Rightarrow> nat \<Rightarrow> world \<Rightarrow> string \<Rightarrow> string \<Rightarrow> string list \<Rightarrow> bool \<Rightarrow> error option result"
  and copy_target ::
    "process_oracle \<Rightarrow> nat \<Rightarrow> world \<Rightarrow> string \<Rightarrow> string \<Rightarrow> bool \<Rightarrow> error option result"
  and copy_item ::
    "process_oracle \<Rightarrow> nat \<Rightarrow> world \<Rightarrow> string \<Rightarrow> string \<Rightarrow> bool \<Rightarrow> error option result"
where
  "copy_directory P 0 w src_dir dest_dir verbose = (Some RecursionError, w)"
| "copy_directory P (Suc n) w src_dir dest_dir verbose =
     (case ensure_dir w dest_dir of
        (Some e, w1) \<Rightarrow> (Some e, w1)
      | (None, w1) \<Rightarrow>
          (case scandir w1 src_dir of
             Inl e \<Rightarrow> (Some e, w1)
           | Inr names \<Rightarrow> copy_entries P n w1 src_dir dest_dir names verbose))"
| "copy_entries P n w src_dir dest_dir [] verbose = (None, w)"
| "copy_entries P n w src_dir dest_dir (name # names) verbose =
     (case copy_item P n w (path_join src_dir name) (path_join dest_dir name) verbose of
        (Some e, w1) \<Rightarrow> (Some e, w1)
      | (None, w1) \<Rightarrow> copy_entries P n w1 src_dir dest_dir names verbose)"
| "copy_target P 0 w src_path dest_path verbose = (Some RecursionError, w)"
| "copy_target P (Suc n) w src_path dest_path verbose =
     (case is_alias_file P w src_path of
        (alias, w1) \<Rightarrow>
          if alias
          then (case resolve_alias_chain P w1 src_path default_max_depth of
                  (resolved, w2) \<Rightarrow>
                    (case truthy resolved of
                       Some r \<Rightarrow>
                         if isdir w2 r then copy_directory P n w2 r dest_path verbose
                         else copy_file w2 r dest_path True
                     | None \<Rightarrow>
                         if isdir w2 src_path
                         then copy_directory P n w2 src_path dest_path verbose
                         else copy_file w2 src_path dest_path True))
          else if isdir w1 src_path then copy_directory P n w1 src_path dest_path verbose
          else copy_file w1 src_path dest_path True)"
| "copy_item P 0 w src_path dest_path verbose = (Some RecursionError, w)"
| "copy_item P (Suc n) w src_path dest_path verbose =
     (case is_alias_file P w src_path of
        (alias, w1) \<Rightarrow>
          if alias
          then (case resolve_alias_chain P w1 src_path default_max_depth of
                  (target, w2) \<Rightarrow>
                    (case truthy target of
                       None \<Rightarrow>
                         copy_file
                           (emit (Stderr (''warning: failed to resolve alias: '' @ src_path)) w2)
                           src_path dest_path False
                     | Some t \<Rightarrow>
                         (let w3 = (if verbose
                                    then emit (Stdout (''alias: '' @ src_path @ '' -> '' @ t)) w2
                                    else w2)
                          in copy_target P n w3 t (ensure_target_extension w3 dest_path t)
                               verbose)))
          else if isdir w1 src_path \<and> \<not> islink w1 src_path
          then copy_directory P n w1 src_path dest_path verbose
          else copy_file w1 src_path dest_path False)"
  by pat_completeness auto

termination
  by (relation "measures
        [\<lambda>x. case x of
               Inl (Inl (P, n, r)) \<Rightarrow> n
             | Inl (Inr (P, n, r)) \<Rightarrow> n
             | Inr (Inl (P, n, r)) \<Rightarrow> n
             | Inr (Inr (P, n, r)) \<Rightarrow> n,
         \<lambda>x. case x of
               Inl (Inr (P, n, w, s, d, names, v)) \<Rightarrow> Suc (length names)
             | _ \<Rightarrow> 0]")
    simp_all


section \<open>The command line\<close>

text \<open>
  \<open>os.path.commonpath\<close>: the longest common sequence of leading path components, with a
  leading slash when the paths are absolute. Absolute and relative paths do not mix.
\<close>

definition commonpath :: "string list \<Rightarrow> error + string" where
  "commonpath paths =
     (case paths of
        [] \<Rightarrow> Inl (ValueError ''commonpath() arg is an empty sequence'')
      | p # ps \<Rightarrow>
          if list_ex (\<lambda>q. (take 1 q = ''/'') \<noteq> (take 1 p = ''/'')) ps
          then Inl (ValueError ''Can't mix absolute and relative paths'')
          else Inr ((if take 1 p = ''/'' then ''/'' else [])
                    @ py_join ''/'' (foldl common_prefix (path_components p)
                                       (map path_components ps))))"

text \<open>
  What \<open>main\<close> gets from outside: the platform name, the external commands, the parsed
  command line, and the two library functions \<open>os.path.abspath\<close> and \<open>os.path.realpath\<close>,
  which are parameters here. \<open>recursion_limit\<close> is the call depth Python allows.
\<close>

record env =
  platform :: string
  subprocess :: process_oracle
  abspath :: "string \<Rightarrow> string"
  realpath :: "world \<Rightarrow> string \<Rightarrow> string"
  recursion_limit :: nat

record args =
  arg_source :: string
  arg_destination :: string
  arg_verbose :: bool

definition main :: "env \<Rightarrow> world \<Rightarrow> args \<Rightarrow> (error + int) result" where
  "main E w a =
     (if platform E \<noteq> ''darwin''
      then (Inr 1, emit (Stderr ''error: this script only supports macOS'') w)
      else
        (let source = abspath E (arg_source a);
             destination = abspath E (arg_destination a)
         in if \<not> isdir w source
            then (Inr 1, emit (Stderr (''error: source is not a directory: '' @ source)) w)
            else
              (let source_real = realpath E w source;
                   destination_real = realpath E w destination
               in if source_real = destination_real
                  then (Inr 1,
                        emit (Stderr ''error: source and destination are the same directory'') w)
                  else
                    (case commonpath [source_real, destination_real] of
                       Inl e \<Rightarrow> (Inl e, w)
                     | Inr common \<Rightarrow>
                         if common = source_real
                         then (Inr 1,
                               emit (Stderr
                                 ''error: destination cannot be inside the source directory'') w)
                         else
                           (case ensure_dir w destination of
                              (Some e, w1) \<Rightarrow> (Inl e, w1)
                            | (None, w1) \<Rightarrow>
                                (case copy_directory (subprocess E) (recursion_limit E) w1
                                        source destination (arg_verbose a) of
                                   (Some e, w2) \<Rightarrow> (Inl e, w2)
                                 | (None, w2) \<Rightarrow> (Inr 0, w2)))))))"


text \<open>
  A destination that is free: nothing is there yet, and its directory exists (an empty
  directory name is the current directory).
\<close>

definition fresh_destination :: "world \<Rightarrow> string \<Rightarrow> bool" where
  "fresh_destination w dst \<longleftrightarrow>
     map_of (fs w) dst = None \<and> (dirname dst = [] \<or> isdir w (dirname dst))"

text \<open>What the run has written to the error stream.\<close>

definition stderr_lines :: "world \<Rightarrow> string list" where
  "stderr_lines w = List.map_filter (\<lambda>e. case e of Stderr s \<Rightarrow> Some s | _ \<Rightarrow> None) (trace w)"

text \<open>
  The first lines of \<open>copy_target\<close>: the path it goes on to copy and the world after its
  probe of the path and, when the path probes as an alias, its resolution.
\<close>

definition target_source :: "process_oracle \<Rightarrow> world \<Rightarrow> string \<Rightarrow> string \<times> world" where
  "target_source P w src_path =
     (case is_alias_file P w src_path of
        (alias, w1) \<Rightarrow>
          if alias
          then (case resolve_alias_chain P w1 src_path default_max_depth of
                  (resolved, w2) \<Rightarrow>
                    (case truthy resolved of
                       Some r \<Rightarrow> (r, w2)
                     | None \<Rightarrow> (src_path, w2)))
          else (src_path, w1))"


text \<open>
  \<open>nested_in inner outer\<close>: both are absolute, \<open>outer\<close> is in the normal form that
  \<open>os.path.realpath\<close> returns, and the components of \<open>outer\<close> are the leading components
  of \<open>inner\<close>.
\<close>

definition nested_in :: "string \<Rightarrow> string \<Rightarrow> bool" where
  "nested_in inner outer \<longleftrightarrow>
     take 1 outer = ''/'' \<and> take 1 inner = ''/''
     \<and> outer = ''/'' @ py_join ''/'' (path_components outer)
     \<and> take (length (path_components outer)) (path_components inner) = path_components outer"



section \<open>Concrete inputs\<close>

definition empty_world :: world where
  "empty_world = \<lparr>fs = [], trace = []\<rparr>"

text \<open>A command that exits with status 0 and prints nothing.\<close>

definition silent_success :: process_oracle where
  "silent_success w args = \<lparr>returncode = 0, stdout = [], stderr = []\<rparr>"

text \<open>A command that exits with status 1.\<close>

definition failing :: process_oracle where
  "failing w args = \<lparr>returncode = 1, stdout = [], stderr = ''execution error''\<rparr>"

text \<open>
  A stand-in for the two platform services, driven by a table: a path in the table is an
  alias, and resolves to the path given for it, or not at all.
\<close>

definition table_oracle :: "(string \<times> string option) list \<Rightarrow> process_oracle" where
  "table_oracle tbl w args =
     (case args of
        [bin, a, b, c, path] \<Rightarrow>
          if bin = MDLS_BIN
          then (case map_of tbl path of
                  Some t \<Rightarrow> \<lparr>returncode = 0, stdout = ALIAS_CONTENT_TYPE, stderr = []\<rparr>
                | None \<Rightarrow> \<lparr>returncode = 0, stdout = ''public.data'', stderr = []\<rparr>)
          else (case map_of tbl path of
                  Some (Some t) \<Rightarrow> \<lparr>returncode = 0, stdout = t @ ''\<newline>'', stderr = []\<rparr>
                | _ \<Rightarrow> \<lparr>returncode = 1, stdout = [], stderr = ''execution error''\<rparr>)
      | _ \<Rightarrow> \<lparr>returncode = 2, stdout = [], stderr = ''usage''\<rparr>)"

definition doc_oracle :: process_oracle where
  "doc_oracle = table_oracle [(''/S/Doc.alias'', Some ''/Targets/report.pdf'')]"

text \<open>Two aliases that point at each other.\<close>

definition swap_oracle :: process_oracle where
  "swap_oracle = table_oracle [(''/A'', Some ''/B''), (''/B'', Some ''/A'')]"

definition swap_chain :: "string list" where
  "swap_chain = [''/A'', ''/B'', ''/A'', ''/B'', ''/A'', ''/B'', ''/A'', ''/B'', ''/A'', ''/B'', ''/A'']"

text \<open>
  A source folder \<open>/S\<close> with one alias, its target in \<open>/Targets\<close>, and an empty
  destination folder \<open>/D\<close>.
\<close>

definition doc_world :: world where
  "doc_world =
     \<lparr>fs = [(''/S'', Dir), (''/S/Doc.alias'', File ''book mark''),
            (''/Targets'', Dir), (''/Targets/report.pdf'', File ''%PDF-1.7 report''),
            (''/D'', Dir)],
      trace = []\<rparr>"

text \<open>The alias of \<open>doc_world\<close> when the volume of its target is not mounted.\<close>

definition unmounted_oracle :: process_oracle where
  "unmounted_oracle = table_oracle [(''/S/Doc.alias'', None)]"

text \<open>The alias of \<open>doc_world\<close> when its resolution succeeds and prints an empty line.\<close>

definition blank_oracle :: process_oracle where
  "blank_oracle = table_oracle [(''/S/Doc.alias'', Some [])]"

text \<open>A source folder with a symbolic link to a file elsewhere.\<close>

definition link_world :: world where
  "link_world =
     \<lparr>fs = [(''/S'', Dir), (''/S/link'', Symlink ''/Targets/report.pdf''),
            (''/Targets'', Dir), (''/Targets/report.pdf'', File ''%PDF-1.7 report''),
            (''/D'', Dir)],
      trace = []\<rparr>"

text \<open>Nothing is an alias.\<close>

definition no_aliases :: process_oracle where
  "no_aliases = table_oracle []"






text \<open>A macOS environment in which every path is already absolute and real.\<close>

definition doc_env :: env where
  "doc_env =
     \<lparr>platform = ''darwin'', subprocess = doc_oracle, abspath = (\<lambda>p. p),
      realpath = (\<lambda>w p. p), recursion_limit = 1000\<rparr>"



section \<open>One hop of resolution\<close>

lemma resolve_alias_eq:
  "resolve_alias P w path =
     (if returncode (P w (osascript_cmd path)) \<noteq> 0 then None
      else Some (py_strip (stdout (P w (osascript_cmd path)))),
      emit (Spawn (osascript_cmd path)) w)"
  by (simp add: resolve_alias_def run_osascript_def run_cmd_def osascript_cmd_def Let_def)

text \<open>
  C7, as stated: \<open>resolve_alias\<close> returns none exactly when the external call exits with a
  non-zero status or prints nothing. It fails for a call that exits with status 0 and
  prints nothing: the result is the empty string, not none.
\<close>

theorem resolve_alias_empty_output_counterexample:
  "\<not> (fst (resolve_alias silent_success empty_world ''/S/Doc.alias'') = None
       \<longleftrightarrow> (returncode (silent_success empty_world (osascript_cmd ''/S/Doc.alias'')) \<noteq> 0
            \<or> stdout (silent_success empty_world (osascript_cmd ''/S/Doc.alias'')) = []))"
  by (simp add: resolve_alias_eq silent_success_def)


section \<open>The chain loop\<close>

lemma is_alias_file_eq:
  "is_alias_file P w path =
     (returncode (P w (mdls_cmd path)) = 0
        \<and> py_strip (stdout (P w (mdls_cmd path))) = ALIAS_CONTENT_TYPE,
      emit (Spawn (mdls_cmd path)) w)"
  by (simp add: is_alias_file_def run_cmd_def)

lemma chain_loop_Suc:
  "chain_loop P (Suc n) w current =
     (let probe = P w (mdls_cmd current);
          w1 = emit (Spawn (mdls_cmd current)) w;
          hop = P w1 (osascript_cmd current);
          w2 = emit (Spawn (osascript_cmd current)) w1;
          resolved = py_strip (stdout hop)
      in if \<not> (returncode probe = 0 \<and> py_strip (stdout probe) = ALIAS_CONTENT_TYPE)
         then (Some current, w1)
         else if returncode hop \<noteq> 0 \<or> resolved = [] then (None, w2)
         else if resolved = current then (Some current, w2)
         else chain_loop P n w2 resolved)"
proof (cases "returncode (P w (mdls_cmd current)) = 0
    \<and> py_strip (stdout (P w (mdls_cmd current))) = ALIAS_CONTENT_TYPE")
  case False
  then show ?thesis
    by (simp add: is_alias_file_eq Let_def)
next
  case True
  let ?w1 = "emit (Spawn (mdls_cmd current)) w"
  show ?thesis
  proof (cases "returncode (P ?w1 (osascript_cmd current)) \<noteq> 0")
    case True
    with \<open>returncode (P w (mdls_cmd current)) = 0
        \<and> py_strip (stdout (P w (mdls_cmd current))) = ALIAS_CONTENT_TYPE\<close>
    show ?thesis
      by (simp add: is_alias_file_eq resolve_alias_eq Let_def)
  next
    case False
    with \<open>returncode (P w (mdls_cmd current)) = 0
        \<and> py_strip (stdout (P w (mdls_cmd current))) = ALIAS_CONTENT_TYPE\<close>
    show ?thesis
      by (simp add: is_alias_file_eq resolve_alias_eq Let_def)
  qed
qed

text \<open>
  C2: one iteration of \<open>resolve_alias_chain\<close>, in terms of what the two external commands
  return. With no iteration left the current path is returned. Otherwise: a path that does
  not probe as an alias is returned as it is; a failed resolution (non-zero exit status or
  empty output) gives none; a resolution to the current path returns the current path; any
  other resolution becomes the current path of the remaining iterations.
\<close>

theorem resolve_alias_chain_step:
  "resolve_alias_chain P w current max_depth =
     (if max_depth \<le> 0 then (Some current, w)
      else
        (let probe = P w (mdls_cmd current);
             w1 = emit (Spawn (mdls_cmd current)) w;
             hop = P w1 (osascript_cmd current);
             w2 = emit (Spawn (osascript_cmd current)) w1;
             resolved = py_strip (stdout hop)
         in if \<not> (returncode probe = 0 \<and> py_strip (stdout probe) = ALIAS_CONTENT_TYPE)
            then (Some current, w1)
            else if returncode hop \<noteq> 0 \<or> resolved = [] then (None, w2)
            else if resolved = current then (Some current, w2)
            else resolve_alias_chain P w2 resolved (max_depth - 1)))"
proof (cases "max_depth \<le> 0")
  case True
  then show ?thesis by (simp add: resolve_alias_chain_def)
next
  case False
  then have n: "nat max_depth = Suc (nat (max_depth - 1))"
    by simp
  from False show ?thesis
    unfolding resolve_alias_chain_def
    by (subst n) (simp only: chain_loop_Suc if_False)
qed

lemma count_probe [simp]:
  "probes (emit (Spawn (mdls_cmd p)) w) = Suc (probes w)"
  "hops (emit (Spawn (mdls_cmd p)) w) = hops w"
  by (simp_all add: probes_def hops_def emit_def mdls_cmd_def MDLS_BIN_def OSASCRIPT_BIN_def)

lemma count_hop [simp]:
  "probes (emit (Spawn (osascript_cmd p)) w) = probes w"
  "hops (emit (Spawn (osascript_cmd p)) w) = Suc (hops w)"
  by (simp_all add: probes_def hops_def emit_def osascript_cmd_def MDLS_BIN_def OSASCRIPT_BIN_def)

lemma chain_loop_Suc_cases:
  obtains
    (not_alias) "chain_loop P (Suc n) w p = (Some p, emit (Spawn (mdls_cmd p)) w)"
  | (stopped) r where
      "chain_loop P (Suc n) w p
         = (r, emit (Spawn (osascript_cmd p)) (emit (Spawn (mdls_cmd p)) w))"
  | (advance) q where
      "chain_loop P (Suc n) w p
         = chain_loop P n (emit (Spawn (osascript_cmd p)) (emit (Spawn (mdls_cmd p)) w)) q"
proof -
  let ?w1 = "emit (Spawn (mdls_cmd p)) w"
  let ?w2 = "emit (Spawn (osascript_cmd p)) ?w1"
  let ?r = "py_strip (stdout (P ?w1 (osascript_cmd p)))"
  consider
      (a) "chain_loop P (Suc n) w p = (Some p, ?w1)"
    | (b) "chain_loop P (Suc n) w p = (None, ?w2)"
    | (c) "chain_loop P (Suc n) w p = (Some p, ?w2)"
    | (d) "chain_loop P (Suc n) w p = chain_loop P n ?w2 ?r"
    by (simp only: chain_loop_Suc Let_def) presburger
  then show thesis
    using that by cases blast+
qed

lemma chain_loop_counts:
  "probes (snd (chain_loop P n w p)) \<le> probes w + n
   \<and> hops (snd (chain_loop P n w p)) \<le> hops w + n"
proof (induction n arbitrary: w p)
  case 0
  show ?case by simp
next
  case (Suc n)
  show ?case
  proof (cases rule: chain_loop_Suc_cases [of P n w p])
    case not_alias
    then show ?thesis by simp
  next
    case (stopped r)
    then show ?thesis by simp
  next
    case (advance q)
    show ?thesis
      using Suc.IH [of "emit (Spawn (osascript_cmd p)) (emit (Spawn (mdls_cmd p)) w)" q]
      unfolding advance by simp
  qed
qed


lemma hop_to_step:
  assumes "hop_to P p q" "q \<noteq> []" "q \<noteq> p"
  shows "chain_loop P (Suc n) w p
      = chain_loop P n (emit (Spawn (osascript_cmd p)) (emit (Spawn (mdls_cmd p)) w)) q"
proof -
  have "fst (is_alias_file P w p)"
    using assms(1) by (simp add: hop_to_def)
  then have ia: "is_alias_file P w p = (True, emit (Spawn (mdls_cmd p)) w)"
    by (simp add: is_alias_file_eq)
  have "fst (resolve_alias P (emit (Spawn (mdls_cmd p)) w) p) = Some q"
    using assms(1) by (simp add: hop_to_def)
  then have ra: "resolve_alias P (emit (Spawn (mdls_cmd p)) w) p
      = (Some q, emit (Spawn (osascript_cmd p)) (emit (Spawn (mdls_cmd p)) w))"
    by (simp add: resolve_alias_eq split: if_splits)
  show ?thesis
    using assms(2,3) by (simp add: ia ra)
qed

lemma chain_loop_exhausts:
  "alias_chain P ps \<Longrightarrow> n < length ps \<Longrightarrow>
     fst (chain_loop P n w (hd ps)) = Some (ps ! n)
     \<and> probes (snd (chain_loop P n w (hd ps))) = probes w + n
     \<and> hops (snd (chain_loop P n w (hd ps))) = hops w + n"
proof (induction n arbitrary: w ps)
  case 0
  then show ?case by (cases ps) simp_all
next
  case (Suc n)
  then obtain p q qs where ps: "ps = p # q # qs"
    by (cases ps; cases "tl ps") auto
  with Suc.prems have hop: "hop_to P p q" "q \<noteq> []" "q \<noteq> p"
    and rest: "alias_chain P (q # qs)" and len: "n < length (q # qs)"
    by auto
  show ?case
    using Suc.IH [OF rest len, of "emit (Spawn (osascript_cmd p)) (emit (Spawn (mdls_cmd p)) w)"]
    by (simp add: ps hop_to_step [OF hop] del: chain_loop.simps)
qed


lemma table_oracle_probe:
  "fst (is_alias_file (table_oracle tbl) w p) = (map_of tbl p \<noteq> None)"
  by (simp add: is_alias_file_eq table_oracle_def mdls_cmd_def py_strip_def py_isspace_def
      ALIAS_CONTENT_TYPE_def split: option.splits)

text \<open>
  C7, amended: \<open>resolve_alias\<close> returns none exactly when the external call exits with a
  non-zero status; with status 0 it returns the output with surrounding white space
  removed, which is the empty string when the output is empty or white space only. The
  caller \<open>resolve_alias_chain\<close> treats none and the empty string alike: on a path that
  probes as an alias, either result of the resolution makes it return none.
\<close>

theorem resolve_alias_none_iff_nonzero_exit:
  "(fst (resolve_alias P w path) = None
      \<longleftrightarrow> returncode (P w (osascript_cmd path)) \<noteq> 0)
   \<and> (returncode (P w (osascript_cmd path)) = 0 \<longrightarrow>
        fst (resolve_alias P w path) = Some (py_strip (stdout (P w (osascript_cmd path)))))
   \<and> (fst (is_alias_file P w path) \<and> 0 < max_depth
        \<and> (fst (resolve_alias P (emit (Spawn (mdls_cmd path)) w) path) = None
             \<or> fst (resolve_alias P (emit (Spawn (mdls_cmd path)) w) path) = Some []) \<longrightarrow>
        resolve_alias_chain P w path max_depth
          = (None, emit (Spawn (osascript_cmd path)) (emit (Spawn (mdls_cmd path)) w)))"
proof (intro conjI impI)
  show "fst (resolve_alias P w path) = None \<longleftrightarrow> returncode (P w (osascript_cmd path)) \<noteq> 0"
    by (simp add: resolve_alias_eq)
  show "fst (resolve_alias P w path) = Some (py_strip (stdout (P w (osascript_cmd path))))"
    if "returncode (P w (osascript_cmd path)) = 0"
    using that by (simp add: resolve_alias_eq)
next
  let ?w1 = "emit (Spawn (mdls_cmd path)) w"
  let ?w2 = "emit (Spawn (osascript_cmd path)) ?w1"
  assume a: "fst (is_alias_file P w path) \<and> 0 < max_depth
    \<and> (fst (resolve_alias P ?w1 path) = None \<or> fst (resolve_alias P ?w1 path) = Some [])"
  then have ia: "is_alias_file P w path = (True, ?w1)"
    by (simp add: is_alias_file_eq)
  obtain r where ra: "resolve_alias P ?w1 path = (r, ?w2)"
    by (simp add: resolve_alias_eq)
  with a have "truthy r = None"
    by auto
  then have "chain_loop P (Suc (nat (max_depth - 1))) w path = (None, ?w2)"
    by (simp add: ia ra)
  moreover have "nat max_depth = Suc (nat (max_depth - 1))"
  proof -
    from a have "0 < max_depth"
      by blast
    then show ?thesis
      by simp
  qed
  ultimately show "resolve_alias_chain P w path max_depth = (None, ?w2)"
    by (simp only: resolve_alias_chain_def)
qed

theorem resolve_alias_none_iff_nonzero_exit_witness:
  "fst (resolve_alias failing empty_world ''/S/Doc.alias'') = None
   \<and> returncode (silent_success empty_world (osascript_cmd ''/S/Doc.alias'')) = 0
   \<and> fst (resolve_alias silent_success empty_world ''/S/Doc.alias'') = Some []
   \<and> fst (is_alias_file unmounted_oracle empty_world ''/S/Doc.alias'')
   \<and> fst (resolve_alias_chain unmounted_oracle empty_world ''/S/Doc.alias'' 10) = None
   \<and> fst (is_alias_file blank_oracle empty_world ''/S/Doc.alias'')
   \<and> fst (resolve_alias blank_oracle
          (emit (Spawn (mdls_cmd ''/S/Doc.alias'')) empty_world) ''/S/Doc.alias'') = Some []
   \<and> fst (resolve_alias_chain blank_oracle empty_world ''/S/Doc.alias'' 10) = None"
proof -
  have f: "fst (resolve_alias failing empty_world ''/S/Doc.alias'') = None"
    and s: "returncode (silent_success empty_world (osascript_cmd ''/S/Doc.alias'')) = 0"
    and e: "fst (resolve_alias silent_success empty_world ''/S/Doc.alias'') = Some []"
    using resolve_alias_none_iff_nonzero_exit [of failing empty_world "''/S/Doc.alias''"]
      resolve_alias_none_iff_nonzero_exit [of silent_success empty_world "''/S/Doc.alias''"]
    by (simp_all add: failing_def silent_success_def py_strip_def)
  have pu: "fst (is_alias_file unmounted_oracle empty_world ''/S/Doc.alias'')"
    and pb: "fst (is_alias_file blank_oracle empty_world ''/S/Doc.alias'')"
    by (simp_all add: unmounted_oracle_def blank_oracle_def table_oracle_probe)
  have ru: "fst (resolve_alias unmounted_oracle
      (emit (Spawn (mdls_cmd ''/S/Doc.alias'')) empty_world) ''/S/Doc.alias'') = None"
    by (simp add: resolve_alias_eq unmounted_oracle_def table_oracle_def osascript_cmd_def
        OSASCRIPT_BIN_def MDLS_BIN_def)
  have rb: "fst (resolve_alias blank_oracle
      (emit (Spawn (mdls_cmd ''/S/Doc.alias'')) empty_world) ''/S/Doc.alias'') = Some []"
    by (simp add: resolve_alias_eq blank_oracle_def table_oracle_def osascript_cmd_def
        OSASCRIPT_BIN_def MDLS_BIN_def py_strip_def py_isspace_def)
  have ten: "(0::int) < 10"
    by simp
  have "resolve_alias_chain unmounted_oracle empty_world ''/S/Doc.alias'' 10
      = (None, emit (Spawn (osascript_cmd ''/S/Doc.alias''))
          (emit (Spawn (mdls_cmd ''/S/Doc.alias'')) empty_world))"
    using resolve_alias_none_iff_nonzero_exit
      [of unmounted_oracle empty_world "''/S/Doc.alias''" 10] pu ru ten
    by blast
  then have cu: "fst (resolve_alias_chain unmounted_oracle empty_world ''/S/Doc.alias'' 10)
      = None"
    by (simp only: fst_conv)
  have "resolve_alias_chain blank_oracle empty_world ''/S/Doc.alias'' 10
      = (None, emit (Spawn (osascript_cmd ''/S/Doc.alias''))
          (emit (Spawn (mdls_cmd ''/S/Doc.alias'')) empty_world))"
    using resolve_alias_none_iff_nonzero_exit
      [of blank_oracle empty_world "''/S/Doc.alias''" 10] pb rb ten
    by blast
  then have cb: "fst (resolve_alias_chain blank_oracle empty_world ''/S/Doc.alias'' 10) = None"
    by (simp only: fst_conv)
  from f s e pu cu pb rb cb show ?thesis
    by (intro conjI)
qed

lemma py_strip_path_newline:
  "\<not> py_isspace (hd t) \<Longrightarrow> \<not> py_isspace (last t) \<Longrightarrow> t \<noteq> [] \<Longrightarrow> py_strip (t @ ''\<newline>'') = t"
proof -
  assume a: "\<not> py_isspace (hd t)" "\<not> py_isspace (last t)" "t \<noteq> []"
  have nl: "py_isspace (CHR ''\<newline>'')"
    by (simp add: py_isspace_def)
  from a have "dropWhile py_isspace (t @ ''\<newline>'') = t @ ''\<newline>''"
    by (cases t) simp_all
  moreover from a have "dropWhile py_isspace (rev t) = rev t"
    by (cases "rev t") (simp_all add: last_rev [symmetric] hd_rev)
  ultimately show ?thesis
    using nl by (simp add: py_strip_def)
qed


lemma table_oracle_hop:
  assumes "map_of tbl p = Some (Some q)" "q \<noteq> []" "\<not> py_isspace (hd q)" "\<not> py_isspace (last q)"
  shows "hop_to (table_oracle tbl) p q"
  unfolding hop_to_def
proof (intro allI conjI)
  fix w
  show "fst (is_alias_file (table_oracle tbl) w p)"
    using assms(1) by (simp add: table_oracle_probe)
  show "fst (resolve_alias (table_oracle tbl) w p) = Some q"
    using assms py_strip_path_newline [of q]
    by (simp add: resolve_alias_eq table_oracle_def osascript_cmd_def
        OSASCRIPT_BIN_def MDLS_BIN_def)
qed

theorem resolve_alias_chain_step_witness:
  "resolve_alias_chain doc_oracle empty_world ''/S/Doc.alias'' 10
     = resolve_alias_chain doc_oracle
         (emit (Spawn (osascript_cmd ''/S/Doc.alias''))
            (emit (Spawn (mdls_cmd ''/S/Doc.alias'')) empty_world))
         ''/Targets/report.pdf'' 9"
proof -
  have hop: "hop_to doc_oracle ''/S/Doc.alias'' ''/Targets/report.pdf''"
    unfolding doc_oracle_def
    by (rule table_oracle_hop) (simp_all add: py_isspace_def)
  have a: "returncode (doc_oracle w (mdls_cmd ''/S/Doc.alias'')) = 0
      \<and> py_strip (stdout (doc_oracle w (mdls_cmd ''/S/Doc.alias''))) = ALIAS_CONTENT_TYPE" for w
    using hop by (simp add: hop_to_def is_alias_file_eq)
  have b: "returncode (doc_oracle w (osascript_cmd ''/S/Doc.alias'')) = 0
      \<and> py_strip (stdout (doc_oracle w (osascript_cmd ''/S/Doc.alias''))) = ''/Targets/report.pdf''" for w
    using hop by (simp add: hop_to_def resolve_alias_eq split: if_splits)
  show ?thesis
    using resolve_alias_chain_step [of doc_oracle empty_world "''/S/Doc.alias''" 10]
    by (simp add: a b Let_def)
qed

text \<open>
  C6: \<open>resolve_alias_chain\<close> is a total function: it returns for every path, oracle and
  bound. It starts at most \<open>max_depth\<close> probes and at most \<open>max_depth\<close> resolutions. On a
  chain of aliases longer than the bound it makes exactly \<open>max_depth\<close> hops and returns
  the path reached then: a path, not none.
\<close>

theorem resolve_alias_chain_bounded:
  "probes (snd (resolve_alias_chain P w path max_depth)) \<le> probes w + nat max_depth
   \<and> hops (snd (resolve_alias_chain P w path max_depth)) \<le> hops w + nat max_depth
   \<and> (alias_chain P ps \<and> nat max_depth < length ps \<longrightarrow>
        fst (resolve_alias_chain P w (hd ps) max_depth) = Some (ps ! nat max_depth)
        \<and> probes (snd (resolve_alias_chain P w (hd ps) max_depth)) = probes w + nat max_depth
        \<and> hops (snd (resolve_alias_chain P w (hd ps) max_depth)) = hops w + nat max_depth)"
  unfolding resolve_alias_chain_def
  using chain_loop_counts [of P "nat max_depth" w path]
    chain_loop_exhausts [of P ps "nat max_depth" w]
  by blast

lemma swap_chain_is_chain: "alias_chain swap_oracle swap_chain"
proof -
  have ab: "hop_to swap_oracle ''/A'' ''/B''"
    unfolding swap_oracle_def by (rule table_oracle_hop) (simp_all add: py_isspace_def)
  have ba: "hop_to swap_oracle ''/B'' ''/A''"
    unfolding swap_oracle_def by (rule table_oracle_hop) (simp_all add: py_isspace_def)
  show ?thesis
    by (simp add: swap_chain_def ab ba)
qed

theorem resolve_alias_chain_bounded_witness:
  "alias_chain swap_oracle swap_chain \<and> nat 10 < length swap_chain
   \<and> fst (resolve_alias_chain swap_oracle empty_world ''/A'' 10) = Some ''/A''
   \<and> probes (snd (resolve_alias_chain swap_oracle empty_world ''/A'' 10)) = 10
   \<and> hops (snd (resolve_alias_chain swap_oracle empty_world ''/A'' 10)) = 10"
proof -
  have len: "nat 10 < length swap_chain"
    by (simp add: swap_chain_def)
  have hd: "hd swap_chain = ''/A''" and nth: "swap_chain ! 10 = ''/A''"
    by (simp_all add: swap_chain_def)
  have zero: "probes empty_world = 0" "hops empty_world = 0"
    by (simp_all add: probes_def hops_def empty_world_def)
  show ?thesis
    using resolve_alias_chain_bounded [of swap_oracle empty_world "''/A''" 10 swap_chain]
      swap_chain_is_chain len
    by (simp add: hd nth zero)
qed


section \<open>The file-system calls on a free destination\<close>

lemma fs_emit [simp]: "fs (emit e w) = fs w"
  by (simp add: emit_def)

lemma follow_links_MAX:
  "follow_links MAXSYMLINKS tbl p =
     (case map_of tbl p of
        Some (Symlink t) \<Rightarrow> follow_links 31 tbl (path_join (dirname p) t)
      | _ \<Rightarrow> Some p)"
proof -
  have "MAXSYMLINKS = Suc 31"
    by (simp add: MAXSYMLINKS_def)
  show ?thesis
    unfolding \<open>MAXSYMLINKS = Suc 31\<close> by (rule follow_links.simps)
qed

lemma follow_links_plain:
  "map_of tbl p = None \<Longrightarrow> follow_links MAXSYMLINKS tbl p = Some p"
  "map_of tbl p = Some (File b) \<Longrightarrow> follow_links MAXSYMLINKS tbl p = Some p"
  "map_of tbl p = Some Dir \<Longrightarrow> follow_links MAXSYMLINKS tbl p = Some p"
  by (simp_all add: follow_links_MAX)

lemma stat_plain:
  "map_of (fs w) p = None \<Longrightarrow> stat w p = None"
  "map_of (fs w) p = Some (File b) \<Longrightarrow> stat w p = Some (File b)"
  "map_of (fs w) p = Some Dir \<Longrightarrow> stat w p = Some Dir"
  by (simp_all add: stat_def follow_links_plain)

lemma stat_fs_cong: "fs w = fs w' \<Longrightarrow> stat w p = stat w' p"
  by (simp add: stat_def cong: option.case_cong)

lemma isdir_fs_cong: "fs w = fs w' \<Longrightarrow> isdir w p = isdir w' p"
  using stat_fs_cong [of w w' p] by (simp add: isdir_def)

lemma islink_fs_cong: "fs w = fs w' \<Longrightarrow> islink w p = islink w' p"
  by (simp add: islink_def)

lemma fresh_fs_cong: "fs w = fs w' \<Longrightarrow> fresh_destination w p = fresh_destination w' p"
  using isdir_fs_cong [of w w' "dirname p"] by (simp add: fresh_destination_def)

lemma fresh_parent:
  assumes "fresh_destination w dst"
  shows "(if dirname dst \<noteq> [] then ensure_dir w (dirname dst) else (None, w)) = (None, w)"
    and "parent_error w dst = None"
    and "\<not> isdir w dst" and "\<not> path_exists w dst"
    and "follow_links MAXSYMLINKS (fs w) dst = Some dst"
proof -
  from assms have absent: "map_of (fs w) dst = None"
    and par: "dirname dst = [] \<or> isdir w (dirname dst)"
    by (simp_all add: fresh_destination_def)
  from par show "(if dirname dst \<noteq> [] then ensure_dir w (dirname dst) else (None, w)) = (None, w)"
    by (auto simp: ensure_dir_def path_exists_def isdir_def)
  from par show "parent_error w dst = None"
    by (auto simp: parent_error_def isdir_def)
  from absent show "\<not> isdir w dst" "\<not> path_exists w dst"
    by (simp_all add: isdir_def path_exists_def stat_plain)
  from absent show "follow_links MAXSYMLINKS (fs w) dst = Some dst"
    by (simp add: follow_links_plain)
qed

lemma copy_file_fresh_bytes:
  assumes src: "stat w src = Some (File bytes)"
    and mode: "follow_symlinks \<or> \<not> islink w src"
    and fresh: "fresh_destination w dst"
  shows "copy_file w src dst follow_symlinks = (None, write_node w dst (File bytes))"
proof -
  have "copy_file w src dst follow_symlinks = copy2 w src dst follow_symlinks"
    by (simp add: copy_file_def fresh_parent(1) [OF fresh])
  also have "\<dots> = copyfile w src dst follow_symlinks"
    by (simp add: copy2_def fresh_parent(3) [OF fresh])
  also have "\<dots> = write_bytes w dst bytes"
    using mode by (auto simp: copyfile_def samefile_def fresh_parent(4) [OF fresh] src)
  also have "\<dots> = (None, write_node w dst (File bytes))"
    using fresh
    by (simp add: write_bytes_def fresh_parent(5) [OF fresh] fresh_parent(2) [OF fresh]
        fresh_destination_def)
  finally show ?thesis .
qed

lemma copy_file_fresh_link:
  assumes src: "map_of (fs w) src = Some (Symlink t)"
    and fresh: "fresh_destination w dst"
  shows "copy_file w src dst False = (None, write_node w dst (Symlink t))"
proof -
  have "copy_file w src dst False = copy2 w src dst False"
    by (simp add: copy_file_def fresh_parent(1) [OF fresh])
  also have "\<dots> = copyfile w src dst False"
    by (simp add: copy2_def fresh_parent(3) [OF fresh])
  also have "\<dots> = symlink w t dst"
    by (simp add: copyfile_def samefile_def fresh_parent(4) [OF fresh] src islink_def)
  also have "\<dots> = (None, write_node w dst (Symlink t))"
    using fresh
    by (simp add: symlink_def fresh_parent(2) [OF fresh] fresh_destination_def)
  finally show ?thesis .
qed

lemma written_node: "map_of (fs (write_node w p nd)) p = Some nd"
  by (simp add: write_node_def update_conv')

lemma trace_write_node [simp]: "trace (write_node w p nd) = trace w"
  by (simp add: write_node_def)



section \<open>What resolution leaves unchanged\<close>

lemma default_depth: "resolve_alias_chain P w p default_max_depth = chain_loop P (Suc 9) w p"
  by (simp add: resolve_alias_chain_def default_max_depth_def)

lemma chain_loop_fs [simp]: "fs (snd (chain_loop P n w p)) = fs w"
proof (induction n arbitrary: w p)
  case 0
  show ?case by simp
next
  case (Suc n)
  show ?case
  proof (cases rule: chain_loop_Suc_cases [of P n w p])
    case not_alias
    then show ?thesis by simp
  next
    case (stopped r)
    then show ?thesis by simp
  next
    case (advance q)
    show ?thesis
      unfolding advance by (simp add: Suc.IH)
  qed
qed

lemma stderr_lines_spawn [simp]: "stderr_lines (emit (Spawn a) w) = stderr_lines w"
  by (simp add: stderr_lines_def emit_def map_filter_def)

lemma chain_loop_stderr [simp]: "stderr_lines (snd (chain_loop P n w p)) = stderr_lines w"
proof (induction n arbitrary: w p)
  case 0
  show ?case by simp
next
  case (Suc n)
  show ?case
  proof (cases rule: chain_loop_Suc_cases [of P n w p])
    case not_alias
    then show ?thesis by simp
  next
    case (stopped r)
    then show ?thesis by simp
  next
    case (advance q)
    show ?thesis
      unfolding advance by (simp add: Suc.IH)
  qed
qed

lemma resolve_alias_chain_fs [simp]: "fs (snd (resolve_alias_chain P w p d)) = fs w"
  by (simp add: resolve_alias_chain_def)

lemma resolve_alias_chain_stderr [simp]:
  "stderr_lines (snd (resolve_alias_chain P w p d)) = stderr_lines w"
  by (simp add: resolve_alias_chain_def)

lemma is_alias_file_world: "snd (is_alias_file P w p) = emit (Spawn (mdls_cmd p)) w"
  by (simp add: is_alias_file_eq)

lemma copy_target_eq:
  "copy_target P (Suc n) w src_path dest_path verbose =
     (case target_source P w src_path of
        (s, w') \<Rightarrow>
          if isdir w' s then copy_directory P n w' s dest_path verbose
          else copy_file w' s dest_path True)"
  by (simp add: target_source_def split: prod.splits option.splits)


section \<open>The destination name\<close>








section \<open>An alias that cannot be resolved\<close>

lemma mkdir_trace [simp]: "trace (snd (mkdir w p)) = trace w"
  by (simp add: mkdir_def split: option.splits)

lemma makedirs_trace [simp]: "trace (snd (makedirs w name)) = trace w"
proof (induction w name rule: makedirs.induct)
  case (1 w name)
  show ?case
  proof (cases "fst (makedirs_split name) \<noteq> [] \<and> snd (makedirs_split name) \<noteq> []
      \<and> \<not> path_exists w (fst (makedirs_split name))")
    case False
    have "makedirs w name = mkdir w name"
      by (subst makedirs.simps) (simp only: if_not_P [OF False])
    then show ?thesis
      by simp
  next
    case True
    obtain r w1 where rec: "makedirs w (fst (makedirs_split name)) = (r, w1)"
      by (cases "makedirs w (fst (makedirs_split name))")
    have t1: "trace w1 = trace w"
      using "1.IH" [OF True] rec by simp
    have after: "trace (snd (mkdir w1 name)) = trace w"
      by (simp add: t1)
    have "makedirs w name =
        (case (r, w1) of
           (Some e, w1) \<Rightarrow>
             if e = FileExistsError
             then (if snd (makedirs_split name) = ''.'' then (None, w1) else mkdir w1 name)
             else (Some e, w1)
         | (None, w1) \<Rightarrow>
             if snd (makedirs_split name) = ''.'' then (None, w1) else mkdir w1 name)"
      by (subst makedirs.simps) (simp only: if_P [OF True] rec)
    then show ?thesis
      by (simp add: t1 after split: option.splits)
  qed
qed

lemma ensure_dir_trace [simp]: "trace (snd (ensure_dir w p)) = trace w"
  by (simp add: ensure_dir_def)

lemma symlink_trace [simp]: "trace (snd (symlink w t p)) = trace w"
  by (simp add: symlink_def split: option.splits)

lemma write_bytes_trace [simp]: "trace (snd (write_bytes w p b)) = trace w"
  by (simp add: write_bytes_def split: option.splits)

lemma copyfile_trace [simp]: "trace (snd (copyfile w a b f)) = trace w"
  by (simp add: copyfile_def split: option.splits node.splits)

lemma copy_file_trace [simp]: "trace (snd (copy_file w a b f)) = trace w"
proof -
  obtain r w1 where e: "ensure_dir w (dirname b) = (r, w1)"
    by (cases "ensure_dir w (dirname b)")
  have t1: "trace w1 = trace w"
    using ensure_dir_trace [of w "dirname b"] e by simp
  have c: "trace (snd (copy2 w' a b f)) = trace w'" for w'
    by (simp add: copy2_def)
  show ?thesis
    by (simp add: copy_file_def Let_def e t1 c split: option.splits)
qed

lemma stderr_lines_trace: "trace w' = trace w \<Longrightarrow> stderr_lines w' = stderr_lines w"
  by (simp add: stderr_lines_def)

lemma copy_file_stderr [simp]: "stderr_lines (snd (copy_file w a b f)) = stderr_lines w"
  by (rule stderr_lines_trace) simp

lemma stderr_lines_warn [simp]: "stderr_lines (emit (Stderr s) w) = stderr_lines w @ [s]"
  by (simp add: stderr_lines_def emit_def map_filter_def)

lemma copy_item_unresolved:
  assumes "fst (is_alias_file P w src)"
    and "truthy (fst (resolve_alias_chain P (emit (Spawn (mdls_cmd src)) w) src
            default_max_depth)) = None"
  shows "copy_item P (Suc n) w src dst v =
     copy_file
       (emit (Stderr (''warning: failed to resolve alias: '' @ src))
          (snd (resolve_alias_chain P (emit (Spawn (mdls_cmd src)) w) src default_max_depth)))
       src dst False"
proof -
  have ia: "is_alias_file P w src = (True, emit (Spawn (mdls_cmd src)) w)"
    using assms(1) by (simp add: is_alias_file_eq)
  obtain r w2 where rc:
    "resolve_alias_chain P (emit (Spawn (mdls_cmd src)) w) src default_max_depth = (r, w2)"
    by (cases "resolve_alias_chain P (emit (Spawn (mdls_cmd src)) w) src default_max_depth")
  with assms(2) have "truthy r = None"
    by simp
  then show ?thesis
    by (simp add: ia rc)
qed

lemma copy_target_unresolved:
  assumes "fst (is_alias_file P w src)"
    and "truthy (fst (resolve_alias_chain P (emit (Spawn (mdls_cmd src)) w) src
            default_max_depth)) = None"
  shows "target_source P w src =
     (src, snd (resolve_alias_chain P (emit (Spawn (mdls_cmd src)) w) src default_max_depth))"
proof -
  have ia: "is_alias_file P w src = (True, emit (Spawn (mdls_cmd src)) w)"
    using assms(1) by (simp add: is_alias_file_eq)
  obtain r w2 where rc:
    "resolve_alias_chain P (emit (Spawn (mdls_cmd src)) w) src default_max_depth = (r, w2)"
    by (cases "resolve_alias_chain P (emit (Spawn (mdls_cmd src)) w) src default_max_depth")
  with assms(2) have "truthy r = None"
    by simp
  then show ?thesis
    by (simp add: target_source_def ia rc)
qed


lemma target_source_fs [simp]: "fs (snd (target_source P w src)) = fs w"
proof -
  obtain r w2 where rc:
    "resolve_alias_chain P (emit (Spawn (mdls_cmd src)) w) src default_max_depth = (r, w2)"
    by (cases "resolve_alias_chain P (emit (Spawn (mdls_cmd src)) w) src default_max_depth")
  have "fs w2 = fs w"
    using resolve_alias_chain_fs [of P "emit (Spawn (mdls_cmd src)) w" src default_max_depth] rc
    by simp
  then show ?thesis
    by (simp add: target_source_def is_alias_file_eq rc split: option.splits)
qed

lemma target_source_stderr [simp]:
  "stderr_lines (snd (target_source P w src)) = stderr_lines w"
proof -
  obtain r w2 where rc:
    "resolve_alias_chain P (emit (Spawn (mdls_cmd src)) w) src default_max_depth = (r, w2)"
    by (cases "resolve_alias_chain P (emit (Spawn (mdls_cmd src)) w) src default_max_depth")
  have "stderr_lines w2 = stderr_lines w"
    using resolve_alias_chain_stderr [of P "emit (Spawn (mdls_cmd src)) w" src default_max_depth]
      rc by simp
  then show ?thesis
    by (simp add: target_source_def is_alias_file_eq rc split: option.splits)
qed

lemma chain_loop_unresolvable:
  assumes "fst (is_alias_file P w p)"
    and "fst (resolve_alias P (emit (Spawn (mdls_cmd p)) w) p) = None"
  shows "chain_loop P (Suc n) w p
    = (None, emit (Spawn (osascript_cmd p)) (emit (Spawn (mdls_cmd p)) w))"
proof -
  have ia: "is_alias_file P w p = (True, emit (Spawn (mdls_cmd p)) w)"
    using assms(1) by (simp add: is_alias_file_eq)
  have ra: "resolve_alias P (emit (Spawn (mdls_cmd p)) w) p
      = (None, emit (Spawn (osascript_cmd p)) (emit (Spawn (mdls_cmd p)) w))"
    using assms(2) by (simp add: resolve_alias_eq split: if_splits)
  show ?thesis
    by (simp add: ia ra)
qed

lemma table_oracle_unresolvable:
  "map_of tbl p = Some None \<Longrightarrow> fst (resolve_alias (table_oracle tbl) w p) = None"
  by (simp add: resolve_alias_eq table_oracle_def osascript_cmd_def OSASCRIPT_BIN_def
      MDLS_BIN_def)

lemma unmounted_chain:
  "resolve_alias_chain unmounted_oracle (emit (Spawn (mdls_cmd ''/S/Doc.alias'')) doc_world)
       ''/S/Doc.alias'' default_max_depth
     = (None, emit (Spawn (osascript_cmd ''/S/Doc.alias''))
         (emit (Spawn (mdls_cmd ''/S/Doc.alias''))
           (emit (Spawn (mdls_cmd ''/S/Doc.alias'')) doc_world)))"
  unfolding default_depth
  by (rule chain_loop_unresolvable)
    (simp_all add: unmounted_oracle_def table_oracle_probe table_oracle_unresolvable)

lemma doc_world_free: "fresh_destination doc_world ''/D/Doc.alias''"
proof -
  have "dirname ''/D/Doc.alias'' = ''/D''"
    by (simp add: dirname_def path_split_def is_sep_def Let_def)
  moreover have "isdir doc_world ''/D''"
    by (simp add: isdir_def stat_plain(3) doc_world_def)
  ultimately show ?thesis
    by (simp add: fresh_destination_def) (simp add: doc_world_def)
qed

text \<open>
  C5: when the entry probes as an alias and its chain resolution gives nothing (none or the
  empty string), \<open>copy_item\<close> writes one warning to the error stream and then is the copy
  of the alias file itself without following links, so no error comes from the failed
  resolution. When the alias file is a regular file and the destination is free, the copy
  succeeds and the destination holds the bytes of the alias file. When the copy succeeds,
  the loop of \<open>copy_directory\<close> goes on with the next entry.
\<close>

theorem unresolved_alias_copied_literally:
  assumes probed: "fst (is_alias_file P w src)"
    and unresolved:
      "truthy (fst (resolve_alias_chain P (emit (Spawn (mdls_cmd src)) w) src
          default_max_depth)) = None"
    and warned: "warned =
      emit (Stderr (''warning: failed to resolve alias: '' @ src))
        (snd (resolve_alias_chain P (emit (Spawn (mdls_cmd src)) w) src default_max_depth))"
  shows "copy_item P (Suc n) w src dst v = copy_file warned src dst False
    \<and> stderr_lines (snd (copy_item P (Suc n) w src dst v))
        = stderr_lines w @ [''warning: failed to resolve alias: '' @ src]
    \<and> (map_of (fs w) src = Some (File bytes) \<and> fresh_destination w dst \<longrightarrow>
          copy_item P (Suc n) w src dst v = (None, write_node warned dst (File bytes)))
    \<and> (src = path_join src_dir name \<and> dst = path_join dest_dir name
          \<and> fst (copy_file warned src dst False) = None \<longrightarrow>
          copy_entries P (Suc n) w src_dir dest_dir (name # names) v
            = copy_entries P (Suc n) (snd (copy_file warned src dst False))
                src_dir dest_dir names v)"
proof -
  have eq: "copy_item P (Suc n) w src dst v = copy_file warned src dst False"
    using copy_item_unresolved [OF probed unresolved] warned by simp
  have fsw: "fs warned = fs w"
    by (simp add: warned)
  have lines: "stderr_lines (snd (copy_item P (Suc n) w src dst v))
      = stderr_lines w @ [''warning: failed to resolve alias: '' @ src]"
    unfolding eq by (simp add: warned)
  have literal: "copy_item P (Suc n) w src dst v = (None, write_node warned dst (File bytes))"
    if src: "map_of (fs w) src = Some (File bytes)" and fresh: "fresh_destination w dst"
  proof -
    have "stat warned src = Some (File bytes)"
      using src by (simp add: stat_plain(2) fsw)
    moreover have "\<not> islink warned src"
      using src by (simp add: islink_def fsw)
    moreover have "fresh_destination warned dst"
      using fresh fresh_fs_cong [OF fsw, of dst] by simp
    ultimately show ?thesis
      unfolding eq using copy_file_fresh_bytes [of warned src bytes False dst] by simp
  qed
  have continues: "copy_entries P (Suc n) w src_dir dest_dir (name # names) v
      = copy_entries P (Suc n) (snd (copy_file warned src dst False)) src_dir dest_dir names v"
    if s: "src = path_join src_dir name" and d: "dst = path_join dest_dir name"
      and ok: "fst (copy_file warned src dst False) = None"
  proof -
    obtain w' where "copy_file warned src dst False = (None, w')"
      using ok by (cases "copy_file warned src dst False") simp
    then show ?thesis
      using eq s d by (simp del: copy_item.simps)
  qed
  from eq lines literal continues show ?thesis
    by blast
qed

theorem unresolved_alias_copied_literally_witness:
  "fst (is_alias_file unmounted_oracle doc_world ''/S/Doc.alias'')
   \<and> map_of (fs doc_world) ''/S/Doc.alias'' = Some (File ''book mark'')
   \<and> fresh_destination doc_world ''/D/Doc.alias''
   \<and> copy_item unmounted_oracle (Suc 0) doc_world ''/S/Doc.alias'' ''/D/Doc.alias'' False
       = (None,
          \<lparr>fs = fs doc_world @ [(''/D/Doc.alias'', File ''book mark'')],
           trace = [Spawn (mdls_cmd ''/S/Doc.alias''), Spawn (mdls_cmd ''/S/Doc.alias''),
                    Spawn (osascript_cmd ''/S/Doc.alias''),
                    Stderr ''warning: failed to resolve alias: /S/Doc.alias'']\<rparr>)"
proof -
  have probed: "fst (is_alias_file unmounted_oracle doc_world ''/S/Doc.alias'')"
    by (simp add: unmounted_oracle_def table_oracle_probe)
  have unresolved: "truthy (fst (resolve_alias_chain unmounted_oracle
      (emit (Spawn (mdls_cmd ''/S/Doc.alias'')) doc_world) ''/S/Doc.alias''
      default_max_depth)) = None"
    by (simp add: unmounted_chain)
  have src: "map_of (fs doc_world) ''/S/Doc.alias'' = Some (File ''book mark'')"
    by (simp add: doc_world_def)
  have "copy_item unmounted_oracle (Suc 0) doc_world ''/S/Doc.alias'' ''/D/Doc.alias'' False
      = (None, write_node
          (emit (Stderr (''warning: failed to resolve alias: '' @ ''/S/Doc.alias''))
            (snd (resolve_alias_chain unmounted_oracle
              (emit (Spawn (mdls_cmd ''/S/Doc.alias'')) doc_world) ''/S/Doc.alias''
              default_max_depth)))
          ''/D/Doc.alias'' (File ''book mark''))"
    using unresolved_alias_copied_literally [OF probed unresolved refl,
        where bytes = "''book mark''" and dst = "''/D/Doc.alias''" and n = 0 and v = False]
      src doc_world_free
    by blast
  also have "\<dots> = (None,
          \<lparr>fs = fs doc_world @ [(''/D/Doc.alias'', File ''book mark'')],
           trace = [Spawn (mdls_cmd ''/S/Doc.alias''), Spawn (mdls_cmd ''/S/Doc.alias''),
                    Spawn (osascript_cmd ''/S/Doc.alias''),
                    Stderr ''warning: failed to resolve alias: /S/Doc.alias'']\<rparr>)"
    unfolding unmounted_chain by (simp add: write_node_def emit_def doc_world_def)
  finally show ?thesis
    using probed src doc_world_free by blast
qed


text \<open>
  C10: when the path given to \<open>copy_target\<close> probes as an alias, its chain resolution
  gives nothing and the path is not a directory, \<open>copy_target\<close> is the copy of that path
  as one file with link following, and it writes nothing to the error stream; \<open>copy_item\<close>
  in the same situation copies without following links and writes one warning. When the
  path is a regular file and the destination is free, \<open>copy_target\<close> returns without error
  and the destination holds the bytes of that file.
\<close>

theorem copy_target_unresolved_follows_silently:
  assumes probed: "fst (is_alias_file P w src)"
    and unresolved:
      "truthy (fst (resolve_alias_chain P (emit (Spawn (mdls_cmd src)) w) src
          default_max_depth)) = None"
    and not_dir: "\<not> isdir w src"
    and w2: "w2 = snd (resolve_alias_chain P (emit (Spawn (mdls_cmd src)) w) src
          default_max_depth)"
  shows "copy_target P (Suc n) w src dst v = copy_file w2 src dst True
    \<and> stderr_lines (snd (copy_target P (Suc n) w src dst v)) = stderr_lines w
    \<and> copy_item P (Suc n) w src dst v
        = copy_file (emit (Stderr (''warning: failed to resolve alias: '' @ src)) w2)
            src dst False
    \<and> stderr_lines (snd (copy_item P (Suc n) w src dst v))
        = stderr_lines w @ [''warning: failed to resolve alias: '' @ src]
    \<and> (map_of (fs w) src = Some (File bytes) \<and> fresh_destination w dst \<longrightarrow>
          copy_target P (Suc n) w src dst v = (None, write_node w2 dst (File bytes)))"
proof -
  have ts: "target_source P w src = (src, w2)"
    using copy_target_unresolved [OF probed unresolved] w2 by simp
  have "fs w2 = fs w"
    by (simp add: w2)
  then have nd: "\<not> isdir w2 src"
    using not_dir isdir_fs_cong [of w2 w src] by simp
  have t: "copy_target P (Suc n) w src dst v = copy_file w2 src dst True"
    by (simp add: copy_target_eq ts nd del: copy_target.simps)
  have quiet: "stderr_lines (snd (copy_target P (Suc n) w src dst v)) = stderr_lines w"
    unfolding t by (simp add: w2)
  have i: "copy_item P (Suc n) w src dst v
      = copy_file (emit (Stderr (''warning: failed to resolve alias: '' @ src)) w2) src dst False"
    using copy_item_unresolved [OF probed unresolved] w2 by simp
  have loud: "stderr_lines (snd (copy_item P (Suc n) w src dst v))
      = stderr_lines w @ [''warning: failed to resolve alias: '' @ src]"
    unfolding i by (simp add: w2)
  have written: "copy_target P (Suc n) w src dst v = (None, write_node w2 dst (File bytes))"
    if src: "map_of (fs w) src = Some (File bytes)" and fresh: "fresh_destination w dst"
  proof -
    have "stat w2 src = Some (File bytes)"
      using src \<open>fs w2 = fs w\<close> by (simp add: stat_plain(2))
    moreover have "fresh_destination w2 dst"
      using fresh fresh_fs_cong [OF \<open>fs w2 = fs w\<close>, of dst] by simp
    ultimately show ?thesis
      unfolding t using copy_file_fresh_bytes [of w2 src bytes True dst] by simp
  qed
  from t quiet i loud written show ?thesis
    by blast
qed

theorem copy_target_unresolved_follows_silently_witness:
  "fst (is_alias_file unmounted_oracle doc_world ''/S/Doc.alias'')
   \<and> \<not> isdir doc_world ''/S/Doc.alias''
   \<and> copy_target unmounted_oracle (Suc 0) doc_world ''/S/Doc.alias'' ''/D/Doc.alias'' False
       = copy_file
           (emit (Spawn (osascript_cmd ''/S/Doc.alias''))
             (emit (Spawn (mdls_cmd ''/S/Doc.alias''))
               (emit (Spawn (mdls_cmd ''/S/Doc.alias'')) doc_world)))
           ''/S/Doc.alias'' ''/D/Doc.alias'' True
   \<and> stderr_lines
        (snd (copy_target unmounted_oracle (Suc 0) doc_world ''/S/Doc.alias'' ''/D/Doc.alias''
                False)) = []
   \<and> stderr_lines
        (snd (copy_item unmounted_oracle (Suc 0) doc_world ''/S/Doc.alias'' ''/D/Doc.alias''
                False)) = [''warning: failed to resolve alias: /S/Doc.alias'']
   \<and> copy_target unmounted_oracle (Suc 0) doc_world ''/S/Doc.alias'' ''/D/Doc.alias'' False
       = (None,
          \<lparr>fs = fs doc_world @ [(''/D/Doc.alias'', File ''book mark'')],
           trace = [Spawn (mdls_cmd ''/S/Doc.alias''), Spawn (mdls_cmd ''/S/Doc.alias''),
                    Spawn (osascript_cmd ''/S/Doc.alias'')]\<rparr>)"
proof -
  have probed: "fst (is_alias_file unmounted_oracle doc_world ''/S/Doc.alias'')"
    by (simp add: unmounted_oracle_def table_oracle_probe)
  have unresolved: "truthy (fst (resolve_alias_chain unmounted_oracle
      (emit (Spawn (mdls_cmd ''/S/Doc.alias'')) doc_world) ''/S/Doc.alias''
      default_max_depth)) = None"
    by (simp add: unmounted_chain)
  have not_dir: "\<not> isdir doc_world ''/S/Doc.alias''"
    by (simp add: isdir_def stat_plain(2) [of _ _ "''book mark''"] doc_world_def)
  have quiet: "stderr_lines doc_world = []"
    by (simp add: stderr_lines_def doc_world_def map_filter_def)
  have w2: "emit (Spawn (osascript_cmd ''/S/Doc.alias''))
             (emit (Spawn (mdls_cmd ''/S/Doc.alias''))
               (emit (Spawn (mdls_cmd ''/S/Doc.alias'')) doc_world))
      = snd (resolve_alias_chain unmounted_oracle
          (emit (Spawn (mdls_cmd ''/S/Doc.alias'')) doc_world) ''/S/Doc.alias''
          default_max_depth)"
    by (simp add: unmounted_chain)
  note th = copy_target_unresolved_follows_silently [OF probed unresolved not_dir w2,
      where n = 0 and dst = "''/D/Doc.alias''" and v = False and bytes = "''book mark''"]
  have msg: "''warning: failed to resolve alias: '' @ ''/S/Doc.alias''
      = ''warning: failed to resolve alias: /S/Doc.alias''"
    by simp
  from th have t: "copy_target unmounted_oracle (Suc 0) doc_world ''/S/Doc.alias''
        ''/D/Doc.alias'' False
      = copy_file
           (emit (Spawn (osascript_cmd ''/S/Doc.alias''))
             (emit (Spawn (mdls_cmd ''/S/Doc.alias''))
               (emit (Spawn (mdls_cmd ''/S/Doc.alias'')) doc_world)))
           ''/S/Doc.alias'' ''/D/Doc.alias'' True"
    by (rule conjunct1)
  from th have "stderr_lines
        (snd (copy_target unmounted_oracle (Suc 0) doc_world ''/S/Doc.alias'' ''/D/Doc.alias''
                False)) = stderr_lines doc_world"
    by (rule conjunct1 [OF conjunct2])
  then have q: "stderr_lines
        (snd (copy_target unmounted_oracle (Suc 0) doc_world ''/S/Doc.alias'' ''/D/Doc.alias''
                False)) = []"
    by (simp only: quiet)
  from th have "stderr_lines
        (snd (copy_item unmounted_oracle (Suc 0) doc_world ''/S/Doc.alias'' ''/D/Doc.alias''
                False))
      = stderr_lines doc_world @ [''warning: failed to resolve alias: '' @ ''/S/Doc.alias'']"
    by (rule conjunct1 [OF conjunct2 [OF conjunct2 [OF conjunct2]]])
  then have l: "stderr_lines
        (snd (copy_item unmounted_oracle (Suc 0) doc_world ''/S/Doc.alias'' ''/D/Doc.alias''
                False)) = [''warning: failed to resolve alias: /S/Doc.alias'']"
    by (simp only: quiet msg append_Nil)
  have src: "map_of (fs doc_world) ''/S/Doc.alias'' = Some (File ''book mark'')"
    by (simp add: doc_world_def)
  from th have "map_of (fs doc_world) ''/S/Doc.alias'' = Some (File ''book mark'')
      \<and> fresh_destination doc_world ''/D/Doc.alias'' \<longrightarrow>
      copy_target unmounted_oracle (Suc 0) doc_world ''/S/Doc.alias'' ''/D/Doc.alias'' False
        = (None, write_node
            (emit (Spawn (osascript_cmd ''/S/Doc.alias''))
              (emit (Spawn (mdls_cmd ''/S/Doc.alias''))
                (emit (Spawn (mdls_cmd ''/S/Doc.alias'')) doc_world)))
            ''/D/Doc.alias'' (File ''book mark''))"
    by (rule conjunct2 [OF conjunct2 [OF conjunct2 [OF conjunct2]]])
  with src doc_world_free
  have "copy_target unmounted_oracle (Suc 0) doc_world ''/S/Doc.alias'' ''/D/Doc.alias'' False
        = (None, write_node
            (emit (Spawn (osascript_cmd ''/S/Doc.alias''))
              (emit (Spawn (mdls_cmd ''/S/Doc.alias''))
                (emit (Spawn (mdls_cmd ''/S/Doc.alias'')) doc_world)))
            ''/D/Doc.alias'' (File ''book mark''))"
    by blast
  also have "\<dots> = (None,
          \<lparr>fs = fs doc_world @ [(''/D/Doc.alias'', File ''book mark'')],
           trace = [Spawn (mdls_cmd ''/S/Doc.alias''), Spawn (mdls_cmd ''/S/Doc.alias''),
                    Spawn (osascript_cmd ''/S/Doc.alias'')]\<rparr>)"
    by (simp add: write_node_def emit_def doc_world_def)
  finally have f: "copy_target unmounted_oracle (Suc 0) doc_world ''/S/Doc.alias''
        ''/D/Doc.alias'' False
      = (None,
          \<lparr>fs = fs doc_world @ [(''/D/Doc.alias'', File ''book mark'')],
           trace = [Spawn (mdls_cmd ''/S/Doc.alias''), Spawn (mdls_cmd ''/S/Doc.alias''),
                    Spawn (osascript_cmd ''/S/Doc.alias'')]\<rparr>)" .
  from probed not_dir t q l f show ?thesis
    by (intro conjI)
qed



section \<open>Symbolic links\<close>

lemma stat_through_link:
  assumes "map_of (fs w) p = Some (Symlink t)"
    and "map_of (fs w) (path_join (dirname p) t) = Some (File b)"
  shows "stat w p = Some (File b)"
proof -
  have "follow_links 31 (fs w) (path_join (dirname p) t) = Some (path_join (dirname p) t)"
  proof -
    have "(31::nat) = Suc 30"
      by simp
    then show ?thesis
      using assms(2) by (simp only: follow_links.simps) simp
  qed
  then show ?thesis
    using assms by (simp add: stat_def follow_links_MAX)
qed

lemma copy_item_not_alias:
  assumes "\<not> fst (is_alias_file P w src)" and "islink w src \<or> \<not> isdir w src"
  shows "copy_item P (Suc n) w src dst v = copy_file (emit (Spawn (mdls_cmd src)) w) src dst False"
proof -
  have ia: "is_alias_file P w src = (False, emit (Spawn (mdls_cmd src)) w)"
    using assms(1) by (simp add: is_alias_file_eq)
  have "islink (emit (Spawn (mdls_cmd src)) w) src \<or> \<not> isdir (emit (Spawn (mdls_cmd src)) w) src"
    using assms(2) islink_fs_cong [of "emit (Spawn (mdls_cmd src)) w" w src]
      isdir_fs_cong [of "emit (Spawn (mdls_cmd src)) w" w src]
    by simp
  then show ?thesis
    by (auto simp: ia)
qed

lemma target_source_not_alias:
  assumes "\<not> fst (is_alias_file P w p)"
  shows "target_source P w p = (p, emit (Spawn (mdls_cmd p)) w)"
proof -
  have ia: "is_alias_file P w p = (False, emit (Spawn (mdls_cmd p)) w)"
    using assms by (simp add: is_alias_file_eq)
  show ?thesis
    by (simp add: target_source_def ia)
qed

text \<open>
  C8: an entry that does not probe as an alias and is a symbolic link (or is not a
  directory) is copied by \<open>copy_item\<close> without following links; a link at a free
  destination is then a link with the same target. Whatever \<open>copy_target\<close> copies as a
  file, it copies with link following; when the path it copies leads, through links, to a
  regular file and the destination is free, the destination is a regular file with those
  bytes.
\<close>

theorem links_kept_as_entries_followed_after_resolution:
  "(\<not> fst (is_alias_file P w src) \<and> (islink w src \<or> \<not> isdir w src) \<longrightarrow>
      copy_item P (Suc n) w src dst v
        = copy_file (emit (Spawn (mdls_cmd src)) w) src dst False
      \<and> (map_of (fs w) src = Some (Symlink t) \<and> fresh_destination w dst \<longrightarrow>
            copy_item P (Suc n) w src dst v
              = (None, write_node (emit (Spawn (mdls_cmd src)) w) dst (Symlink t))))
   \<and> (\<not> isdir w (fst (target_source P w tgt)) \<longrightarrow>
      copy_target P (Suc n) w tgt dst v
        = copy_file (snd (target_source P w tgt)) (fst (target_source P w tgt)) dst True
      \<and> (stat w (fst (target_source P w tgt)) = Some (File bytes)
            \<and> fresh_destination w dst \<longrightarrow>
            copy_target P (Suc n) w tgt dst v
              = (None, write_node (snd (target_source P w tgt)) dst (File bytes))))"
proof (intro conjI impI)
  assume a: "\<not> fst (is_alias_file P w src) \<and> (islink w src \<or> \<not> isdir w src)"
  then show eq: "copy_item P (Suc n) w src dst v
      = copy_file (emit (Spawn (mdls_cmd src)) w) src dst False"
    using copy_item_not_alias [of P w src n dst v] by blast
  assume b: "map_of (fs w) src = Some (Symlink t) \<and> fresh_destination w dst"
  let ?w1 = "emit (Spawn (mdls_cmd src)) w"
  have "map_of (fs ?w1) src = Some (Symlink t)"
    using b by simp
  moreover have "fresh_destination ?w1 dst"
    using b fresh_fs_cong [of ?w1 w dst] by simp
  ultimately show "copy_item P (Suc n) w src dst v = (None, write_node ?w1 dst (Symlink t))"
    unfolding eq by (rule copy_file_fresh_link)
next
  obtain s w' where ts: "target_source P w tgt = (s, w')"
    by (cases "target_source P w tgt")
  have fsw: "fs w' = fs w"
    using target_source_fs [of P w tgt] ts by simp
  assume "\<not> isdir w (fst (target_source P w tgt))"
  then have nd: "\<not> isdir w' s"
    using isdir_fs_cong [OF fsw, of s] ts by simp
  then show eq: "copy_target P (Suc n) w tgt dst v
      = copy_file (snd (target_source P w tgt)) (fst (target_source P w tgt)) dst True"
    by (simp add: copy_target_eq ts del: copy_target.simps)
  assume "stat w (fst (target_source P w tgt)) = Some (File bytes) \<and> fresh_destination w dst"
  then have "stat w' s = Some (File bytes)" and "fresh_destination w' dst"
    using stat_fs_cong [OF fsw, of s] fresh_fs_cong [OF fsw, of dst] ts by simp_all
  then have "copy_file w' s dst True = (None, write_node w' dst (File bytes))"
    using copy_file_fresh_bytes [of w' s bytes True dst] by simp
  then show "copy_target P (Suc n) w tgt dst v
      = (None, write_node (snd (target_source P w tgt)) dst (File bytes))"
    unfolding eq by (simp add: ts)
qed

lemma link_world_free: "fresh_destination link_world ''/D/link''"
proof -
  have "dirname ''/D/link'' = ''/D''"
    by (simp add: dirname_def path_split_def is_sep_def Let_def)
  moreover have "isdir link_world ''/D''"
    by (simp add: isdir_def stat_plain(3) link_world_def)
  ultimately show ?thesis
    by (simp add: fresh_destination_def) (simp add: link_world_def)
qed

theorem links_kept_as_entries_followed_after_resolution_witness:
  "\<not> fst (is_alias_file no_aliases link_world ''/S/link'')
   \<and> islink link_world ''/S/link''
   \<and> copy_item no_aliases (Suc 0) link_world ''/S/link'' ''/D/link'' False
       = (None, \<lparr>fs = fs link_world @ [(''/D/link'', Symlink ''/Targets/report.pdf'')],
                 trace = [Spawn (mdls_cmd ''/S/link'')]\<rparr>)
   \<and> copy_target no_aliases (Suc 0) link_world ''/S/link'' ''/D/link'' False
       = (None, \<lparr>fs = fs link_world @ [(''/D/link'', File ''%PDF-1.7 report'')],
                 trace = [Spawn (mdls_cmd ''/S/link'')]\<rparr>)"
proof -
  have na: "\<not> fst (is_alias_file no_aliases link_world ''/S/link'')"
    by (simp add: no_aliases_def table_oracle_probe)
  have link: "map_of (fs link_world) ''/S/link'' = Some (Symlink ''/Targets/report.pdf'')"
    by (simp add: link_world_def)
  then have il: "islink link_world ''/S/link''"
    by (simp add: islink_def)
  have "path_join (dirname ''/S/link'') ''/Targets/report.pdf'' = ''/Targets/report.pdf''"
    by (simp add: path_join_def)
  moreover have "map_of (fs link_world) ''/Targets/report.pdf'' = Some (File ''%PDF-1.7 report'')"
    by (simp add: link_world_def)
  ultimately have st: "stat link_world ''/S/link'' = Some (File ''%PDF-1.7 report'')"
    using stat_through_link [OF link, of "''%PDF-1.7 report''"] by simp
  have ts: "target_source no_aliases link_world ''/S/link''
      = (''/S/link'', emit (Spawn (mdls_cmd ''/S/link'')) link_world)"
    using na by (rule target_source_not_alias)
  have nd: "\<not> isdir link_world ''/S/link''"
    by (simp add: isdir_def st)
  note th = links_kept_as_entries_followed_after_resolution
    [of no_aliases link_world "''/S/link''" 0 "''/D/link''" False "''/Targets/report.pdf''"
      "''/S/link''" "''%PDF-1.7 report''"]
  have i: "copy_item no_aliases (Suc 0) link_world ''/S/link'' ''/D/link'' False
      = (None, write_node (emit (Spawn (mdls_cmd ''/S/link'')) link_world) ''/D/link''
          (Symlink ''/Targets/report.pdf''))"
    using th na il link link_world_free by blast
  have t: "copy_target no_aliases (Suc 0) link_world ''/S/link'' ''/D/link'' False
      = (None, write_node (emit (Spawn (mdls_cmd ''/S/link'')) link_world) ''/D/link''
          (File ''%PDF-1.7 report''))"
    using th nd st link_world_free unfolding ts fst_conv snd_conv by blast
  have w1: "write_node (emit (Spawn (mdls_cmd ''/S/link'')) link_world) ''/D/link'' nd
      = \<lparr>fs = fs link_world @ [(''/D/link'', nd)], trace = [Spawn (mdls_cmd ''/S/link'')]\<rparr>" for nd
    by (simp add: write_node_def emit_def link_world_def)
  from na il i t show ?thesis
    unfolding w1 by (intro conjI)
qed



section \<open>An alias that resolves to a regular file\<close>












section \<open>The resolved target is probed again\<close>


lemma hops_trace: "trace w' = trace w \<Longrightarrow> hops w' = hops w"
  by (simp add: hops_def)

lemma hops_copy_file [simp]: "hops (snd (copy_file w a b f)) = hops w"
  by (rule hops_trace) simp


















section \<open>Source and destination that collide\<close>

lemma common_prefix_take: "take (length xs) ys = xs \<Longrightarrow> common_prefix xs ys = xs"
proof (induction xs arbitrary: ys)
  case Nil
  show ?case by simp
next
  case (Cons x xs)
  then show ?case by (cases ys) simp_all
qed

lemma commonpath_nested:
  assumes "nested_in d s"
  shows "commonpath [s, d] = Inr s"
proof -
  from assms have abs: "take 1 s = ''/''" "take 1 d = ''/''"
    and norm: "s = ''/'' @ py_join ''/'' (path_components s)"
    and pre: "take (length (path_components s)) (path_components d) = path_components s"
    by (simp_all add: nested_in_def)
  have "commonpath [s, d]
      = Inr (''/'' @ py_join ''/'' (common_prefix (path_components s) (path_components d)))"
    using abs by (simp add: commonpath_def)
  also have "\<dots> = Inr (''/'' @ py_join ''/'' (path_components s))"
    by (simp only: common_prefix_take [OF pre])
  also have "\<dots> = Inr s"
    using norm by simp
  finally show ?thesis .
qed

text \<open>
  C9: when the real paths of source and destination are equal, or the real path of the
  destination is nested inside that of the source, \<open>main\<close> returns exit code 1 and the
  file system is what it was: nothing has been written.
\<close>

theorem collision_exits_without_writing:
  assumes "realpath E w (abspath E (arg_source a)) = realpath E w (abspath E (arg_destination a))
    \<or> nested_in (realpath E w (abspath E (arg_destination a)))
         (realpath E w (abspath E (arg_source a)))"
  shows "fst (main E w a) = Inr 1 \<and> fs (snd (main E w a)) = fs w"
proof (cases "platform E \<noteq> ''darwin'' \<or> \<not> isdir w (abspath E (arg_source a))")
  case True
  then show ?thesis
    by (auto simp: main_def Let_def)
next
  case False
  then have on: "platform E = ''darwin''" "isdir w (abspath E (arg_source a))"
    by simp_all
  show ?thesis
  proof (cases "realpath E w (abspath E (arg_source a))
      = realpath E w (abspath E (arg_destination a))")
    case True
    with on show ?thesis
      by (simp add: main_def Let_def)
  next
    case False
    with assms have "commonpath [realpath E w (abspath E (arg_source a)),
        realpath E w (abspath E (arg_destination a))]
      = Inr (realpath E w (abspath E (arg_source a)))"
      using commonpath_nested by blast
    with on False show ?thesis
      by (simp add: main_def Let_def)
  qed
qed

theorem collision_exits_without_writing_witness:
  "nested_in ''/S/out'' ''/S''
   \<and> fst (main doc_env doc_world
            \<lparr>arg_source = ''/S'', arg_destination = ''/S/out'', arg_verbose = False\<rparr>) = Inr 1
   \<and> fs (snd (main doc_env doc_world
                \<lparr>arg_source = ''/S'', arg_destination = ''/S/out'', arg_verbose = False\<rparr>))
       = fs doc_world
   \<and> fst (main doc_env doc_world
            \<lparr>arg_source = ''/S'', arg_destination = ''/S'', arg_verbose = False\<rparr>) = Inr 1
   \<and> fs (snd (main doc_env doc_world
                \<lparr>arg_source = ''/S'', arg_destination = ''/S'', arg_verbose = False\<rparr>))
       = fs doc_world"
proof -
  have n: "nested_in ''/S/out'' ''/S''"
    by (simp add: nested_in_def path_components_def)
  have a: "realpath doc_env doc_world (abspath doc_env p) = p" for p
    by (simp add: doc_env_def)
  let ?inside = "\<lparr>arg_source = ''/S'', arg_destination = ''/S/out'', arg_verbose = False\<rparr>"
  let ?same = "\<lparr>arg_source = ''/S'', arg_destination = ''/S'', arg_verbose = False\<rparr>"
  have i: "fst (main doc_env doc_world ?inside) = Inr 1
      \<and> fs (snd (main doc_env doc_world ?inside)) = fs doc_world"
    by (rule collision_exits_without_writing) (simp add: a n)
  have s: "fst (main doc_env doc_world ?same) = Inr 1
      \<and> fs (snd (main doc_env doc_world ?same)) = fs doc_world"
    by (rule collision_exits_without_writing) (simp add: a)
  from n i s show ?thesis
    by blast
qed


end
